theory Spec2Isabelle
  imports Complex_Main
begin

section \<open>Library primitives used by EllipsoidGeometry.js\<close>

text \<open>
  Numbers are modelled as exact reals: the vector arithmetic of the source is IEEE double
  arithmetic, of which the real operations below are the idealisation. An array index is a
  natural number; an array element that is \<open>undefined\<close> (a hole, or a read
  out of range) is \<open>None\<close>.
\<close>

datatype Cartesian3 = Cartesian3 (x3: real) (y3: real) (z3: real)

text \<open>The exceptions: the \<open>DeveloperError\<close> that the constructor throws at line 65, and
  the failure of a vector primitive that is handed \<open>undefined\<close> for a vector.\<close>

datatype error = DeveloperError | UndefinedOperand

text \<open>Modelled from the spec: the vector primitives of \<open>./Cartesian3\<close>, which is not
  part of the reviewed source ("matrix/vector primitives ... are assumed as library
  primitives with stable semantics (normalize, cross product, component-wise multiply,
  etc.)").\<close>

definition add :: "Cartesian3 \<Rightarrow> Cartesian3 \<Rightarrow> Cartesian3" where
  "add l r = Cartesian3 (x3 l + x3 r) (y3 l + y3 r) (z3 l + z3 r)"

definition subtract :: "Cartesian3 \<Rightarrow> Cartesian3 \<Rightarrow> Cartesian3" where
  "subtract l r = Cartesian3 (x3 l - x3 r) (y3 l - y3 r) (z3 l - z3 r)"

definition multiplyByScalar :: "Cartesian3 \<Rightarrow> real \<Rightarrow> Cartesian3" where
  "multiplyByScalar c s = Cartesian3 (x3 c * s) (y3 c * s) (z3 c * s)"

definition multiplyComponents :: "Cartesian3 \<Rightarrow> Cartesian3 \<Rightarrow> Cartesian3" where
  "multiplyComponents l r = Cartesian3 (x3 l * x3 r) (y3 l * y3 r) (z3 l * z3 r)"

definition magnitude :: "Cartesian3 \<Rightarrow> real" where
  "magnitude c = sqrt (x3 c * x3 c + y3 c * y3 c + z3 c * z3 c)"

definition cross :: "Cartesian3 \<Rightarrow> Cartesian3 \<Rightarrow> Cartesian3" where
  "cross l r = Cartesian3 (y3 l * z3 r - z3 l * y3 r)
                          (z3 l * x3 r - x3 l * z3 r)
                          (x3 l * y3 r - y3 l * x3 r)"

definition UNIT_Z :: Cartesian3 where
  "UNIT_Z = Cartesian3 0 0 1"

text \<open>Modelled from the spec: \<open>Cartesian3.normalize\<close>. On the zero vector the source
  divides zero by zero and yields NaN components; the real quotient below yields zero
  there, so nothing is claimed about the normalisation of a zero vector.\<close>

definition normalize3 :: "Cartesian3 \<Rightarrow> Cartesian3" where
  "normalize3 c = (let m = magnitude c in Cartesian3 (x3 c / m) (y3 c / m) (z3 c / m))"

text \<open>Modelled from the spec: the ellipsoid of \<open>./Ellipsoid\<close> ("a sphere scaled
  independently along three orthogonal axes by radii"), its inverse radii, and its
  geodetic surface normal ("the gradient of the implicit ellipsoid equation,
  normalized"). The inverse of a zero radius is zero in HOL; the theorems that
  depend on the value of an inverse radius are stated for positive radii.\<close>

record Ellipsoid =
  radii :: Cartesian3

definition getRadii :: "Ellipsoid \<Rightarrow> Cartesian3" where
  "getRadii e = radii e"

definition getOneOverRadii :: "Ellipsoid \<Rightarrow> Cartesian3" where
  "getOneOverRadii e = Cartesian3 (1 / x3 (radii e)) (1 / y3 (radii e)) (1 / z3 (radii e))"

definition getOneOverRadiiSquared :: "Ellipsoid \<Rightarrow> Cartesian3" where
  "getOneOverRadiiSquared e =
     Cartesian3 (1 / (x3 (radii e) * x3 (radii e)))
                (1 / (y3 (radii e) * y3 (radii e)))
                (1 / (z3 (radii e) * z3 (radii e)))"

definition geodeticSurfaceNormal :: "Ellipsoid \<Rightarrow> Cartesian3 \<Rightarrow> Cartesian3" where
  "geodeticSurfaceNormal e p = normalize3 (multiplyComponents p (getOneOverRadiiSquared e))"

definition UNIT_SPHERE :: Ellipsoid where
  "UNIT_SPHERE = \<lparr>radii = Cartesian3 1 1 1\<rparr>"

text \<open>Modelled from the spec: the bounding sphere of \<open>./BoundingSphere\<close> ("center at
  origin, radius = max radius component").\<close>

record BoundingSphere =
  center :: Cartesian3
  radius :: real

definition fromEllipsoid :: "Ellipsoid \<Rightarrow> BoundingSphere" where
  "fromEllipsoid e =
     \<lparr>center = Cartesian3 0 0 0,
      radius = max (x3 (radii e)) (max (y3 (radii e)) (z3 (radii e)))\<rparr>"

text \<open>The two-argument arctangent of JavaScript's \<open>Math.atan2\<close>, by quadrant;
  \<open>Math.asin\<close> is \<open>arcsin\<close>.\<close>

definition atan2 :: "real \<Rightarrow> real \<Rightarrow> real" where
  "atan2 b a =
     (if 0 < a then arctan (b / a)
      else if a < 0 \<and> 0 \<le> b then arctan (b / a) + pi
      else if a < 0 then arctan (b / a) - pi
      else if 0 < b then pi / 2
      else if b < 0 then - (pi / 2)
      else 0)"

text \<open>Modelled from the spec: the constants of \<open>./Math\<close> that the texture
  coordinates use ("\<open>u = atan2(spherical.y, spherical.x)/(2\<pi>) + 0.5\<close>,
  \<open>v = asin(spherical.z)/\<pi> + 0.5\<close>").\<close>

definition ONE_OVER_PI :: real where
  "ONE_OVER_PI = 1 / pi"

definition ONE_OVER_TWO_PI :: real where
  "ONE_OVER_TWO_PI = 1 / (2 * pi)"

subsection \<open>JavaScript arrays\<close>

text \<open>Reading an index outside the array yields \<open>undefined\<close>; writing past the end
  extends the array, leaving holes.\<close>

definition js_get :: "'a option list \<Rightarrow> nat \<Rightarrow> 'a option" where
  "js_get a i = (if i < length a then a ! i else None)"

definition js_set :: "'a option list \<Rightarrow> nat \<Rightarrow> 'a option \<Rightarrow> 'a option list" where
  "js_set a i v =
     (if i < length a then a[i := v] else a @ replicate (i - length a) None @ [v])"

text \<open>\<open>a[a.length - 1]\<close>: on the empty array the index is \<open>-1\<close> and the read is
  \<open>undefined\<close>.\<close>

definition js_last :: "'a option list \<Rightarrow> 'a option" where
  "js_last a = (if length a = 0 then None else js_get a (length a - 1))"

text \<open>\<open>positions[k]\<close>, where \<open>k\<close> is itself the result of an array read. The position
  list is only ever grown by \<open>push\<close>, so it has no holes.\<close>

definition positionAt :: "Cartesian3 list \<Rightarrow> nat option \<Rightarrow> Cartesian3 option" where
  "positionAt positions k =
     (case k of None \<Rightarrow> None
      | Some n \<Rightarrow> if n < length positions then Some (positions ! n) else None)"

text \<open>Sequencing of fallible steps: an exception aborts everything after it.\<close>

definition andThen :: "error + 'a \<Rightarrow> ('a \<Rightarrow> error + 'b) \<Rightarrow> error + 'b" where
  "andThen r f = (case r of Inl e \<Rightarrow> Inl e | Inr v \<Rightarrow> f v)"

section \<open>addEdgePositions\<close>

text \<open>The loop \<open>for (var i = 1; i < numberOfPartitions; ++i)\<close> of lines 279-286.\<close>

function addEdgeLoop ::
  "nat \<Rightarrow> nat \<Rightarrow> Cartesian3 \<Rightarrow> Cartesian3 \<Rightarrow> nat option list \<Rightarrow> Cartesian3 list
     \<Rightarrow> nat option list \<times> Cartesian3 list" where
  "addEdgeLoop i numberOfPartitions origin direction indices positions =
     (if i < numberOfPartitions then
        let delta = real i / real numberOfPartitions;
            position = multiplyByScalar direction delta;
            position = add origin position
        in addEdgeLoop (Suc i) numberOfPartitions origin direction
             (js_set indices i (Some (length positions))) (positions @ [position])
      else (indices, positions))"
  by pat_completeness auto
termination
  by (relation "measure (\<lambda>(i, n, _). n - i)") auto

declare addEdgeLoop.simps [simp del]

text \<open>Lines 271-289. \<open>Cartesian3.subtract\<close> raises when an operand is \<open>undefined\<close>,
  which happens when \<open>i0\<close> or \<open>i1\<close> does not name a position.\<close>

definition addEdgePositions ::
  "nat \<Rightarrow> nat \<Rightarrow> nat \<Rightarrow> Cartesian3 list \<Rightarrow> error + (nat option list \<times> Cartesian3 list)" where
  "addEdgePositions i0 i1 numberOfPartitions positions =
     (let indices = js_set [] 0 (Some i0);
          indices = js_set indices (nat (2 + (int numberOfPartitions - 1) - 1)) (Some i1)
      in case (positionAt positions (Some i1), positionAt positions (Some i0)) of
           (Some p1, Some origin) \<Rightarrow>
             Inr (addEdgeLoop 1 numberOfPartitions origin (subtract p1 origin) indices positions)
         | _ \<Rightarrow> Inl UndefinedOperand)"

section \<open>addFaceTriangles\<close>

text \<open>The inner loop of lines 323-331: the interior columns of one row.\<close>

function faceColumnLoop ::
  "nat \<Rightarrow> nat \<Rightarrow> Cartesian3 \<Rightarrow> Cartesian3 \<Rightarrow> Cartesian3 \<Rightarrow> nat option list \<Rightarrow> Cartesian3 list
     \<Rightarrow> nat option list \<times> Cartesian3 list" where
  "faceColumnLoop i numberOfPartitions origin x offsetY topIndicesBuffer positions =
     (if i < numberOfPartitions then
        let deltaX = real i / real numberOfPartitions;
            offsetX = multiplyByScalar x deltaX;
            position = add origin offsetX;
            position = add position offsetY
        in faceColumnLoop (Suc i) numberOfPartitions origin x offsetY
             (js_set topIndicesBuffer i (Some (length positions))) (positions @ [position])
      else (topIndicesBuffer, positions))"
  by pat_completeness auto
termination
  by (relation "measure (\<lambda>(i, n, _). n - i)") auto

declare faceColumnLoop.simps [simp del]

text \<open>The loop of lines 339-347: the two triangles of every cell of one row.\<close>

function faceQuadLoop ::
  "nat \<Rightarrow> nat \<Rightarrow> nat option list \<Rightarrow> nat option list \<Rightarrow> nat option list \<Rightarrow> nat option list" where
  "faceQuadLoop k numberOfPartitions bottomIndices topIndices indices =
     (if k < numberOfPartitions then
        faceQuadLoop (Suc k) numberOfPartitions bottomIndices topIndices
          (indices @ [js_get bottomIndices k, js_get bottomIndices (k + 1),
                      js_get topIndices (k + 1),
                      js_get bottomIndices k, js_get topIndices (k + 1),
                      js_get topIndices k])
      else indices)"
  by pat_completeness auto
termination
  by (relation "measure (\<lambda>(k, n, _). n - k)") auto

declare faceQuadLoop.simps [simp del]

text \<open>
  The loop over the rows, lines 307-348. \<open>topIndices\<close> of the source is an alias of the
  array \<open>topIndicesBuffer\<close> until the last row, where it becomes \<open>topLeftToRight\<close>;
  \<open>bottomIndices\<close> is \<open>bottomLeftToRight\<close> in the first row, a copy (\<open>slice(0)\<close>) of
  the previous row's \<open>topIndicesBuffer\<close> in the rows between, and \<open>topIndicesBuffer\<close>
  itself in the last row.
\<close>

function faceRowLoop ::
  "nat \<Rightarrow> nat \<Rightarrow> nat option list \<Rightarrow> nat option list \<Rightarrow> nat option list
     \<Rightarrow> Cartesian3 \<Rightarrow> Cartesian3 \<Rightarrow> Cartesian3
     \<Rightarrow> nat option list \<Rightarrow> nat option list \<Rightarrow> Cartesian3 list \<Rightarrow> nat option list
     \<Rightarrow> Cartesian3 list \<times> nat option list" where
  "faceRowLoop j numberOfPartitions leftBottomToTop rightBottomToTop topLeftToRight
       origin x y bottomIndices topIndicesBuffer positions indices =
     (if j \<le> numberOfPartitions then
        if j \<noteq> numberOfPartitions then
          let bottomIndices = (if j \<noteq> 1 then topIndicesBuffer else bottomIndices);
              topIndicesBuffer = js_set topIndicesBuffer 0 (js_get leftBottomToTop j);
              topIndicesBuffer =
                js_set topIndicesBuffer numberOfPartitions (js_get rightBottomToTop j);
              deltaY = real j / real numberOfPartitions;
              offsetY = multiplyByScalar y deltaY;
              rowResult =
                faceColumnLoop 1 numberOfPartitions origin x offsetY topIndicesBuffer positions;
              topIndicesBuffer = fst rowResult;
              positions = snd rowResult;
              indices = faceQuadLoop 0 numberOfPartitions bottomIndices topIndicesBuffer indices
          in faceRowLoop (Suc j) numberOfPartitions leftBottomToTop rightBottomToTop
               topLeftToRight origin x y bottomIndices topIndicesBuffer positions indices
        else
          let bottomIndices = (if j \<noteq> 1 then topIndicesBuffer else bottomIndices);
              topIndices = topLeftToRight;
              indices = faceQuadLoop 0 numberOfPartitions bottomIndices topIndices indices
          in faceRowLoop (Suc j) numberOfPartitions leftBottomToTop rightBottomToTop
               topLeftToRight origin x y bottomIndices topIndicesBuffer positions indices
      else (positions, indices))"
  by pat_completeness auto
termination
  by (relation "measure (\<lambda>(j, n, _). Suc n - j)") auto

declare faceRowLoop.simps [simp del]

text \<open>Lines 296-349. The two \<open>Cartesian3.subtract\<close> calls raise when an operand is
  \<open>undefined\<close>.\<close>

definition addFaceTriangles ::
  "nat option list \<Rightarrow> nat option list \<Rightarrow> nat option list \<Rightarrow> nat option list \<Rightarrow> nat
     \<Rightarrow> Cartesian3 list \<Rightarrow> nat option list \<Rightarrow> error + (Cartesian3 list \<times> nat option list)" where
  "addFaceTriangles leftBottomToTop bottomLeftToRight rightBottomToTop topLeftToRight
       numberOfPartitions positions indices =
     (case (positionAt positions (js_last bottomLeftToRight),
            positionAt positions (js_get bottomLeftToRight 0)) of
        (Some pr, Some origin) \<Rightarrow>
          (case positionAt positions (js_get topLeftToRight 0) of
             Some pt \<Rightarrow>
               let x = subtract pr origin;
                   y = subtract pt origin
               in Inr (faceRowLoop 1 numberOfPartitions leftBottomToTop rightBottomToTop
                         topLeftToRight origin x y bottomLeftToRight [] positions indices)
           | None \<Rightarrow> Inl UndefinedOperand)
      | _ \<Rightarrow> Inl UndefinedOperand)"

section \<open>The EllipsoidGeometry constructor\<close>

subsection \<open>Cube construction, lines 68-127\<close>

text \<open>Lines 85-92: the eight corners pushed onto the empty position list.\<close>

definition cubeCorners :: "Cartesian3 list" where
  "cubeCorners =
     [Cartesian3 (-1) 0 (-1), Cartesian3 0 (-1) (-1), Cartesian3 1 0 (-1), Cartesian3 0 1 (-1),
      Cartesian3 (-1) 0 1, Cartesian3 0 (-1) 1, Cartesian3 1 0 1, Cartesian3 0 1 1]"

text \<open>The twelve local variables that hold the edge index lists.\<close>

record CubeEdges =
  edge0to1 :: "nat option list"
  edge1to2 :: "nat option list"
  edge2to3 :: "nat option list"
  edge3to0 :: "nat option list"
  edge4to5 :: "nat option list"
  edge5to6 :: "nat option list"
  edge6to7 :: "nat option list"
  edge7to4 :: "nat option list"
  edge0to4 :: "nat option list"
  edge1to5 :: "nat option list"
  edge2to6 :: "nat option list"
  edge3to7 :: "nat option list"

text \<open>Lines 101-114: the twelve calls of \<open>addEdgePositions\<close>, in order.\<close>

definition addCubeEdges ::
  "nat \<Rightarrow> Cartesian3 list \<Rightarrow> error + (CubeEdges \<times> Cartesian3 list)" where
  "addCubeEdges numberOfPartitions positions =
     andThen (addEdgePositions 0 1 numberOfPartitions positions) (\<lambda>(e0to1, positions).
     andThen (addEdgePositions 1 2 numberOfPartitions positions) (\<lambda>(e1to2, positions).
     andThen (addEdgePositions 2 3 numberOfPartitions positions) (\<lambda>(e2to3, positions).
     andThen (addEdgePositions 3 0 numberOfPartitions positions) (\<lambda>(e3to0, positions).
     andThen (addEdgePositions 4 5 numberOfPartitions positions) (\<lambda>(e4to5, positions).
     andThen (addEdgePositions 5 6 numberOfPartitions positions) (\<lambda>(e5to6, positions).
     andThen (addEdgePositions 6 7 numberOfPartitions positions) (\<lambda>(e6to7, positions).
     andThen (addEdgePositions 7 4 numberOfPartitions positions) (\<lambda>(e7to4, positions).
     andThen (addEdgePositions 0 4 numberOfPartitions positions) (\<lambda>(e0to4, positions).
     andThen (addEdgePositions 1 5 numberOfPartitions positions) (\<lambda>(e1to5, positions).
     andThen (addEdgePositions 2 6 numberOfPartitions positions) (\<lambda>(e2to6, positions).
     andThen (addEdgePositions 3 7 numberOfPartitions positions) (\<lambda>(e3to7, positions).
       Inr (\<lparr>edge0to1 = e0to1, edge1to2 = e1to2, edge2to3 = e2to3, edge3to0 = e3to0,
             edge4to5 = e4to5, edge5to6 = e5to6, edge6to7 = e6to7, edge7to4 = e7to4,
             edge0to4 = e0to4, edge1to5 = e1to5, edge2to6 = e2to6, edge3to7 = e3to7\<rparr>,
            positions)))))))))))))"

text \<open>
  Lines 116-127: the arguments (left, bottom, right, top) of the six calls of
  \<open>addFaceTriangles\<close>, in order: the faces Q3, Q4, Q1, Q2, the plane z = 1 and the
  plane z = -1. \<open>e.slice(0).reverse()\<close> is the reversed copy \<open>rev e\<close>.
\<close>

type_synonym face = "nat option list \<times> nat option list \<times> nat option list \<times> nat option list"

definition cubeFaces :: "CubeEdges \<Rightarrow> face list" where
  "cubeFaces e =
     [(edge0to4 e, edge0to1 e, edge1to5 e, edge4to5 e),
      (edge1to5 e, edge1to2 e, edge2to6 e, edge5to6 e),
      (edge2to6 e, edge2to3 e, edge3to7 e, edge6to7 e),
      (edge3to7 e, edge3to0 e, edge0to4 e, edge7to4 e),
      (rev (edge7to4 e), edge4to5 e, edge5to6 e, rev (edge6to7 e)),
      (edge1to2 e, rev (edge0to1 e), rev (edge3to0 e), edge2to3 e)]"

fun addFaces ::
  "face list \<Rightarrow> nat \<Rightarrow> Cartesian3 list \<Rightarrow> nat option list
     \<Rightarrow> error + (Cartesian3 list \<times> nat option list)" where
  "addFaces [] numberOfPartitions positions indices = Inr (positions, indices)"
| "addFaces ((l, b, r, t) # faces) numberOfPartitions positions indices =
     andThen (addFaceTriangles l b r t numberOfPartitions positions indices)
       (\<lambda>(positions, indices). addFaces faces numberOfPartitions positions indices)"

text \<open>The cube-space position list and the index buffer as they stand after line 127.\<close>

definition cubeMesh :: "nat \<Rightarrow> error + (Cartesian3 list \<times> nat option list)" where
  "cubeMesh numberOfPartitions =
     andThen (addCubeEdges numberOfPartitions cubeCorners) (\<lambda>(edges, positions).
       addFaces (cubeFaces edges) numberOfPartitions positions [])"

subsection \<open>Attribute passes, lines 135-222\<close>

text \<open>
  Lines 140-148. \<open>Cartesian3.normalize(item, item)\<close> and
  \<open>Cartesian3.multiplyComponents(item, radii, item)\<close> write their result into
  \<open>item\<close>, which is the object stored in \<open>positions[i]\<close>: the pass changes the
  position list that the later passes read. Every element of the list is a distinct
  object, so the update of one entry leaves the others alone. The buffer is filled
  from index 0 upwards without gaps, which is modelled by appending.
\<close>

function positionLoop ::
  "nat \<Rightarrow> Cartesian3 \<Rightarrow> Cartesian3 list \<Rightarrow> real list \<Rightarrow> Cartesian3 list \<times> real list" where
  "positionLoop i rad positions flattenedPositions =
     (if i < length positions then
        let item = positions ! i;
            item = normalize3 item;
            item = multiplyComponents item rad
        in positionLoop (Suc i) rad (positions[i := item])
             (flattenedPositions @ [x3 item, y3 item, z3 item])
      else (positions, flattenedPositions))"
  by pat_completeness auto
termination
  by (relation "measure (\<lambda>(i, _, positions, _). length positions - i)") auto

declare positionLoop.simps [simp del]

text \<open>Lines 161-167.\<close>

function stLoop :: "nat \<Rightarrow> Cartesian3 \<Rightarrow> Cartesian3 list \<Rightarrow> real list \<Rightarrow> real list" where
  "stLoop i oneOverRadii positions texCoords =
     (if i < length positions then
        let sphericalNormal = multiplyComponents (positions ! i) oneOverRadii;
            sphericalNormal = normalize3 sphericalNormal
        in stLoop (Suc i) oneOverRadii positions
             (texCoords @
                [atan2 (y3 sphericalNormal) (x3 sphericalNormal) * ONE_OVER_TWO_PI + 0.5,
                 arcsin (z3 sphericalNormal) * ONE_OVER_PI + 0.5])
      else texCoords)"
  by pat_completeness auto
termination
  by (relation "measure (\<lambda>(i, _, positions, _). length positions - i)") auto

declare stLoop.simps [simp del]

text \<open>Lines 181-197: the normal, tangent and binormal of every vertex.\<close>

function normalLoop ::
  "nat \<Rightarrow> Ellipsoid \<Rightarrow> Cartesian3 list \<Rightarrow> real list \<Rightarrow> real list \<Rightarrow> real list
     \<Rightarrow> real list \<times> real list \<times> real list" where
  "normalLoop i ell positions normals tangents binormals =
     (if i < length positions then
        let nrm = geodeticSurfaceNormal ell (positions ! i);
            tng = cross UNIT_Z nrm;
            bnm = cross nrm tng
        in normalLoop (Suc i) ell positions
             (normals @ [x3 nrm, y3 nrm, z3 nrm])
             (tangents @ [x3 tng, y3 tng, z3 tng])
             (binormals @ [x3 bnm, y3 bnm, z3 bnm])
      else (normals, tangents, binormals))"
  by pat_completeness auto
termination
  by (relation "measure (\<lambda>(i, _, positions, _). length positions - i)") auto

declare normalLoop.simps [simp del]

subsection \<open>The constructor, lines 56-267\<close>

record VertexFormat =
  position :: bool
  normal :: bool
  st :: bool
  binormal :: bool
  tangent :: bool

text \<open>Modelled from the spec: the formats of \<open>./VertexFormat\<close> ("default:
  position+normal+texture").\<close>

definition DEFAULT :: VertexFormat where
  "DEFAULT = \<lparr>position = True, normal = True, st = True, binormal = False, tangent = False\<rparr>"

definition POSITION_ONLY :: VertexFormat where
  "POSITION_ONLY =
     \<lparr>position = True, normal = False, st = False, binormal = False, tangent = False\<rparr>"

record GeometryAttribute =
  componentsPerAttribute :: nat
  attributeValues :: "real list"

record Attributes =
  positionAttribute :: "GeometryAttribute option"
  stAttribute :: "GeometryAttribute option"
  normalAttribute :: "GeometryAttribute option"
  tangentAttribute :: "GeometryAttribute option"
  binormalAttribute :: "GeometryAttribute option"

text \<open>The options object; an absent property is \<open>None\<close>. The model matrix and the
  pick data are stored verbatim by the constructor and are left out.\<close>

record Options =
  ellipsoid :: "Ellipsoid option"
  numberOfPartitions :: "int option"
  vertexFormat :: "VertexFormat option"

record Geometry =
  attributes :: Attributes
  indexLists :: "nat option list list"
  boundingSphere :: BoundingSphere

text \<open>Modelled from the spec: \<open>./defaultValue\<close>, the value of an option or, when it
  is absent, its default ("partition count (positive integer, default 32)").\<close>

definition defaultValue :: "'a option \<Rightarrow> 'a \<Rightarrow> 'a" where
  "defaultValue a b = (case a of None \<Rightarrow> b | Some v \<Rightarrow> v)"

definition EllipsoidGeometry :: "Options \<Rightarrow> error + Geometry" where
  "EllipsoidGeometry options =
     (let ell = defaultValue (ellipsoid options) UNIT_SPHERE;
          partitions = defaultValue (numberOfPartitions options) 32;
          format = defaultValue (vertexFormat options) DEFAULT
      in if partitions \<le> 0 then Inl DeveloperError
         else
           andThen (cubeMesh (nat partitions)) (\<lambda>(positions, indices).
             let positionPass =
                   (if position format
                    then let r = positionLoop 0 (getRadii ell) positions []
                         in (fst r,
                             Some \<lparr>componentsPerAttribute = 3, attributeValues = snd r\<rparr>)
                    else (positions, None));
                 positions = fst positionPass;
                 stPass =
                   (if st format
                    then Some \<lparr>componentsPerAttribute = 2,
                               attributeValues = stLoop 0 (getOneOverRadii ell) positions []\<rparr>
                    else None);
                 normalPass =
                   (if normal format \<or> tangent format \<or> binormal format
                    then let r = normalLoop 0 ell positions [] [] []
                         in ((if normal format
                              then Some \<lparr>componentsPerAttribute = 3,
                                         attributeValues = fst r\<rparr>
                              else None),
                             (if tangent format
                              then Some \<lparr>componentsPerAttribute = 3,
                                         attributeValues = fst (snd r)\<rparr>
                              else None),
                             (if binormal format
                              then Some \<lparr>componentsPerAttribute = 3,
                                         attributeValues = snd (snd r)\<rparr>
                              else None))
                    else (None, None, None))
             in Inr \<lparr>attributes =
                       \<lparr>positionAttribute = snd positionPass,
                        stAttribute = stPass,
                        normalAttribute = fst normalPass,
                        tangentAttribute = fst (snd normalPass),
                        binormalAttribute = snd (snd normalPass)\<rparr>,
                     indexLists = [indices],
                     boundingSphere = fromEllipsoid ell\<rparr>))"

section \<open>Closed forms\<close>

text \<open>
  The definitions of this section describe in closed form what the iterations above compute:
  the index list and the points of an edge, the rows of indices and the grid of points of
  a face, and the position list and index buffer of the whole cube. The lemmas after them
  prove that the code computes exactly these.
\<close>

definition edgeIndexList :: "nat \<Rightarrow> nat \<Rightarrow> nat \<Rightarrow> nat \<Rightarrow> nat option list" where
  "edgeIndexList i0 i1 P n = Some i0 # map Some [n ..< n + (P - 1)] @ [Some i1]"

definition edgePoints :: "Cartesian3 \<Rightarrow> Cartesian3 \<Rightarrow> nat \<Rightarrow> Cartesian3 list" where
  "edgePoints origin dest P =
     map (\<lambda>i. add origin (multiplyByScalar (subtract dest origin) (real i / real P))) [1..<P]"

definition quad :: "nat option list \<Rightarrow> nat option list \<Rightarrow> nat \<Rightarrow> nat option list" where
  "quad b t k = [js_get b k, js_get b (k + 1), js_get t (k + 1), js_get b k, js_get t (k + 1), js_get t k]"

definition quadTriangles :: "nat \<Rightarrow> nat option list \<Rightarrow> nat option list \<Rightarrow> nat option list" where
  "quadTriangles P b t = concat (map (quad b t) [0..<P])"

definition gridRow :: "nat \<Rightarrow> Cartesian3 \<Rightarrow> Cartesian3 \<Rightarrow> Cartesian3 \<Rightarrow> nat \<Rightarrow> Cartesian3 list" where
  "gridRow P origin x y j =
     map (\<lambda>i. add (add origin (multiplyByScalar x (real i / real P)))
                  (multiplyByScalar y (real j / real P))) [1..<P]"

definition faceRow ::
  "nat option list \<Rightarrow> nat option list \<Rightarrow> nat option list \<Rightarrow> nat option list \<Rightarrow> nat \<Rightarrow> nat \<Rightarrow> nat
     \<Rightarrow> nat option list" where
  "faceRow L B R T P n m =
     (if m = 0 then B else if m = P then T
      else js_get L m #
           map Some [n + (m - 1) * (P - 1) ..< n + (m - 1) * (P - 1) + (P - 1)] @ [js_get R m])"

definition faceGrid :: "nat \<Rightarrow> Cartesian3 \<Rightarrow> Cartesian3 \<Rightarrow> Cartesian3 \<Rightarrow> Cartesian3 list" where
  "faceGrid P origin x y = concat (map (gridRow P origin x y) [1..<P])"

definition faceTriangles ::
  "nat option list \<Rightarrow> nat option list \<Rightarrow> nat option list \<Rightarrow> nat option list \<Rightarrow> nat \<Rightarrow> nat
     \<Rightarrow> nat option list" where
  "faceTriangles L B R T P n =
     concat (map (\<lambda>m. quadTriangles P (faceRow L B R T P n (m - 1)) (faceRow L B R T P n m))
                 [1..<Suc P])"

definition cubeEdgeEnds :: "(nat \<times> nat) list" where
  "cubeEdgeEnds = [(0, 1), (1, 2), (2, 3), (3, 0), (4, 5), (5, 6), (6, 7), (7, 4),
                   (0, 4), (1, 5), (2, 6), (3, 7)]"

definition cubeEdgePositions :: "nat \<Rightarrow> Cartesian3 list" where
  "cubeEdgePositions P =
     cubeCorners @
     concat (map (\<lambda>(a, b). edgePoints (cubeCorners ! a) (cubeCorners ! b) P) cubeEdgeEnds)"

definition cubeEdgeLists :: "nat \<Rightarrow> CubeEdges" where
  "cubeEdgeLists P =
     \<lparr>edge0to1 = edgeIndexList 0 1 P 8,
      edge1to2 = edgeIndexList 1 2 P (8 + 1 * (P - 1)),
      edge2to3 = edgeIndexList 2 3 P (8 + 2 * (P - 1)),
      edge3to0 = edgeIndexList 3 0 P (8 + 3 * (P - 1)),
      edge4to5 = edgeIndexList 4 5 P (8 + 4 * (P - 1)),
      edge5to6 = edgeIndexList 5 6 P (8 + 5 * (P - 1)),
      edge6to7 = edgeIndexList 6 7 P (8 + 6 * (P - 1)),
      edge7to4 = edgeIndexList 7 4 P (8 + 7 * (P - 1)),
      edge0to4 = edgeIndexList 0 4 P (8 + 8 * (P - 1)),
      edge1to5 = edgeIndexList 1 5 P (8 + 9 * (P - 1)),
      edge2to6 = edgeIndexList 2 6 P (8 + 10 * (P - 1)),
      edge3to7 = edgeIndexList 3 7 P (8 + 11 * (P - 1))\<rparr>"

definition cubeFaceFrames :: "(nat \<times> nat \<times> nat) list" where
  "cubeFaceFrames = [(0, 1, 4), (1, 2, 5), (2, 3, 6), (3, 0, 7), (4, 5, 7), (1, 0, 2)]"

definition cubeFaceGrid :: "nat \<Rightarrow> nat \<times> nat \<times> nat \<Rightarrow> Cartesian3 list" where
  "cubeFaceGrid P f =
     (case f of (a, b, c) \<Rightarrow>
        faceGrid P (cubeCorners ! a) (subtract (cubeCorners ! b) (cubeCorners ! a))
          (subtract (cubeCorners ! c) (cubeCorners ! a)))"

definition cubePositions :: "nat \<Rightarrow> Cartesian3 list" where
  "cubePositions P = cubeEdgePositions P @ concat (map (cubeFaceGrid P) cubeFaceFrames)"

fun facesTriangles :: "face list \<Rightarrow> nat \<Rightarrow> nat \<Rightarrow> nat option list" where
  "facesTriangles [] P n = []"
| "facesTriangles ((l, b, r, t) # faces) P n =
     faceTriangles l b r t P n @ facesTriangles faces P (n + (P - 1) * (P - 1))"

definition cubeIndices :: "nat \<Rightarrow> nat option list" where
  "cubeIndices P = facesTriangles (cubeFaces (cubeEdgeLists P)) P (8 + 12 * (P - 1))"

definition cornerFace :: "face \<Rightarrow> nat \<times> nat \<times> nat \<Rightarrow> bool" where
  "cornerFace f c =
     (case (f, c) of ((l, b, r, t), (i, j, k)) \<Rightarrow>
        js_get b 0 = Some i \<and> js_last b = Some j \<and> js_get t 0 = Some k \<and> i < 8 \<and> j < 8 \<and> k < 8)"

text \<open>An entry of an index array names a position of a list of \<open>n\<close> positions when it is
  a number below \<open>n\<close>; \<open>undefined\<close> names none.\<close>

definition validIndex :: "nat \<Rightarrow> nat option \<Rightarrow> bool" where
  "validIndex n e = (case e of None \<Rightarrow> False | Some k \<Rightarrow> k < n)"

text \<open>The four edge lists of a face have length \<open>P + 1\<close> and name positions.\<close>

definition validFace :: "nat \<Rightarrow> nat \<Rightarrow> face \<Rightarrow> bool" where
  "validFace N P f =
     (case f of (l, b, r, t) \<Rightarrow>
        list_all (validIndex N) l \<and> length l = Suc P \<and>
        list_all (validIndex N) b \<and> length b = Suc P \<and>
        list_all (validIndex N) r \<and> length r = Suc P \<and>
        list_all (validIndex N) t \<and> length t = Suc P)"

text \<open>The attribute passes in closed form: the projection of a cube-space point onto the
  ellipsoid, the flat buffer of a list of vectors, the texture coordinates, tangent and
  binormal of one vertex, and the position list as the texture and normal passes read it
  (after the position pass, when that pass has run).\<close>

definition toEllipsoid :: "Cartesian3 \<Rightarrow> Cartesian3 \<Rightarrow> Cartesian3" where
  "toEllipsoid rad p = multiplyComponents (normalize3 p) rad"

definition flatten :: "Cartesian3 list \<Rightarrow> real list" where
  "flatten ps = concat (map (\<lambda>p. [x3 p, y3 p, z3 p]) ps)"

definition texCoord :: "Cartesian3 \<Rightarrow> Cartesian3 \<Rightarrow> real list" where
  "texCoord oneOverRadii p =
     (let sphericalNormal = normalize3 (multiplyComponents p oneOverRadii)
      in [atan2 (y3 sphericalNormal) (x3 sphericalNormal) * ONE_OVER_TWO_PI + 0.5,
          arcsin (z3 sphericalNormal) * ONE_OVER_PI + 0.5])"

definition vertexTangent :: "Ellipsoid \<Rightarrow> Cartesian3 \<Rightarrow> Cartesian3" where
  "vertexTangent e p = cross UNIT_Z (geodeticSurfaceNormal e p)"

definition vertexBinormal :: "Ellipsoid \<Rightarrow> Cartesian3 \<Rightarrow> Cartesian3" where
  "vertexBinormal e p = cross (geodeticSurfaceNormal e p) (vertexTangent e p)"

definition passPositions :: "VertexFormat \<Rightarrow> Ellipsoid \<Rightarrow> nat \<Rightarrow> Cartesian3 list" where
  "passPositions fmt ell P =
     (if position fmt then map (toEllipsoid (getRadii ell)) (cubePositions P)
      else cubePositions P)"

text \<open>Observations of a constructed geometry: the \<open>i\<close>-th vector and the \<open>k\<close>-th number of
  an attribute buffer, when the construction succeeds and the attribute is present.\<close>

definition vertexAt :: "real list \<Rightarrow> nat \<Rightarrow> Cartesian3" where
  "vertexAt vs i = Cartesian3 (vs ! (3 * i)) (vs ! (3 * i + 1)) (vs ! (3 * i + 2))"

definition attributeVertex ::
  "(Attributes \<Rightarrow> GeometryAttribute option) \<Rightarrow> Options \<Rightarrow> nat \<Rightarrow> Cartesian3 option" where
  "attributeVertex sel opts i =
     (case EllipsoidGeometry opts of
        Inl e \<Rightarrow> None
      | Inr g \<Rightarrow>
          (case sel (attributes g) of
             None \<Rightarrow> None
           | Some a \<Rightarrow> Some (vertexAt (attributeValues a) i)))"

definition attributeValue ::
  "(Attributes \<Rightarrow> GeometryAttribute option) \<Rightarrow> Options \<Rightarrow> nat \<Rightarrow> real option" where
  "attributeValue sel opts k =
     (case EllipsoidGeometry opts of
        Inl e \<Rightarrow> None
      | Inr g \<Rightarrow>
          (case sel (attributes g) of
             None \<Rightarrow> None
           | Some a \<Rightarrow> Some (attributeValues a ! k)))"

text \<open>The index, in the final position list, of the interior grid point of column \<open>i\<close>
  and row \<open>j\<close> of the \<open>k\<close>-th face (counted from 0 in the order of construction): the
  faces follow the 8 corners and the 12 edges, each with \<open>(P - 1)\<^sup>2\<close> points.\<close>

definition faceVertexIndex :: "nat \<Rightarrow> nat \<Rightarrow> nat \<Rightarrow> nat \<Rightarrow> nat" where
  "faceVertexIndex P k i j =
     8 + 12 * (P - 1) + k * ((P - 1) * (P - 1)) + (j - 1) * (P - 1) + (i - 1)"

text \<open>The twelve edge lists in the order of their construction, and the faces an edge
  list bounds: those that were handed the list, or its reversed copy, as one of their four
  sides.\<close>

definition edgeLists :: "CubeEdges \<Rightarrow> nat option list list" where
  "edgeLists e =
     [edge0to1 e, edge1to2 e, edge2to3 e, edge3to0 e,
      edge4to5 e, edge5to6 e, edge6to7 e, edge7to4 e,
      edge0to4 e, edge1to5 e, edge2to6 e, edge3to7 e]"

definition sharesEdge :: "nat option list \<Rightarrow> face \<Rightarrow> bool" where
  "sharesEdge e f =
     (case f of (l, b, r, t) \<Rightarrow>
        e = l \<or> e = b \<or> e = r \<or> e = t \<or> rev e = l \<or> rev e = b \<or> rev e = r \<or> rev e = t)"

text \<open>
  The cube-space positions fall into 26 groups: the 8 corners, the interior points of the
  12 edges and the interior points of the 6 faces. \<open>cubeRegion\<close> tells from the
  coordinates of a point which group it lies in: inside a cap when \<open>|x| + |y| < 1\<close>, on
  the column over a corner of the diamond \<open>|x| + |y| = 1\<close> when \<open>x\<close> or \<open>y\<close> is zero,
  on its side over an open quadrant otherwise; at the bottom, at the top or between.
\<close>

definition cubeRegion :: "Cartesian3 \<Rightarrow> nat" where
  "cubeRegion p =
     (let x = x3 p; y = y3 p; z = z3 p
      in if \<bar>x\<bar> + \<bar>y\<bar> < 1 then (if z < 0 then 25 else 24)
         else if x = 0 \<or> y = 0 then
           (let c = (if x < 0 then 0 else if y < 0 then 1 else if 0 < x then 2 else 3)
            in if z = - 1 then c else if z = 1 then 4 + c else 16 + c)
         else
           (let q = (if x < 0 \<and> y < 0 then 0 else if 0 < x \<and> y < 0 then 1
                     else if 0 < x \<and> 0 < y then 2 else 3)
            in if z = - 1 then 8 + q else if z = 1 then 12 + q else 20 + q))"

definition cubeGroups :: "nat \<Rightarrow> Cartesian3 list list" where
  "cubeGroups P =
     map (\<lambda>c. [c]) cubeCorners @
     map (\<lambda>(a, b). edgePoints (cubeCorners ! a) (cubeCorners ! b) P) cubeEdgeEnds @
     map (cubeFaceGrid P) cubeFaceFrames"

section \<open>The code computes its closed forms\<close>

lemma length_js_set: "length (js_set a i v) = max (length a) (Suc i)"
  by (auto simp: js_set_def)

lemma js_set_in: "i < length a \<Longrightarrow> js_set a i v = a[i := v]"
  by (simp add: js_set_def)

lemma upt_shift_Cons: "i < P \<Longrightarrow> [n ..< n + (P - i)] = n # [Suc n ..< Suc n + (P - Suc i)]"
proof -
  assume a: "i < P"
  then have "n + (P - i) = Suc n + (P - Suc i)" by simp
  moreover have "[n ..< n + (P - i)] = n # [Suc n ..< n + (P - i)]"
    using a by (intro upt_conv_Cons) simp
  ultimately show ?thesis by (simp only:)
qed

lemma addEdgeLoop_closed:
  "length indices = Suc P \<Longrightarrow> i \<le> P \<Longrightarrow>
   addEdgeLoop i P origin direction indices positions =
     (take i indices @ map Some [length positions ..< length positions + (P - i)] @ drop P indices,
      positions @ map (\<lambda>k. add origin (multiplyByScalar direction (real k / real P))) [i..<P])"
proof (induction i P origin direction indices positions rule: addEdgeLoop.induct)
  case (1 i P origin direction indices positions)
  show ?case
  proof (cases "i < P")
    case True
    let ?v = "Some (length positions)"
    have a: "take (Suc i) (indices[i := ?v]) = take i indices @ [?v]"
      using True 1(2) by (simp add: take_Suc_conv_app_nth)
    have b: "drop P (indices[i := ?v]) = drop P indices"
      using True by simp
    have d: "[i..<P] = i # [Suc i..<P]"
      using True by (simp add: upt_conv_Cons)
    show ?thesis
      using True 1(2) 1(1)[OF True refl refl refl]
      apply (subst addEdgeLoop.simps)
      apply (subst upt_shift_Cons[OF True])
      apply (simp add: js_set_in a b d Let_def del: upt_Suc)
      done
  next
    case False
    then have "i = P" using 1(3) by simp
    then show ?thesis using 1(2)
      by (subst addEdgeLoop.simps) simp
  qed
qed

lemma edge_initial_indices:
  "1 \<le> P \<Longrightarrow> js_set (js_set [] 0 (Some i0)) P (Some i1) = Some i0 # replicate (P - 1) None @ [Some i1]"
  by (simp add: js_set_def)

lemma addEdgePositions_closed:
  assumes "1 \<le> P" "i0 < length ps" "i1 < length ps"
  shows "addEdgePositions i0 i1 P ps =
           Inr (edgeIndexList i0 i1 P (length ps), ps @ edgePoints (ps ! i0) (ps ! i1) P)"
proof -
  let ?ind = "Some i0 # replicate (P - 1) None @ [Some i1]"
  have len: "length ?ind = Suc P" using assms(1) by simp
  have t: "take 1 ?ind = [Some i0]" by simp
  have d: "drop P ?ind = [Some i1]" using assms(1) by (cases P) simp_all
  have i: "js_set (js_set [] 0 (Some i0)) (nat (2 + (int P - 1) - 1)) (Some i1) = ?ind"
    using edge_initial_indices[OF assms(1)] by simp
  have l: "addEdgeLoop 1 P (ps ! i0) (subtract (ps ! i1) (ps ! i0)) ?ind ps =
        (edgeIndexList i0 i1 P (length ps), ps @ edgePoints (ps ! i0) (ps ! i1) P)"
    unfolding addEdgeLoop_closed[OF len assms(1)] t d edgeIndexList_def edgePoints_def
    by simp
  show ?thesis
    unfolding addEdgePositions_def Let_def i
    using assms(2,3) l by (simp add: positionAt_def)
qed

lemma faceColumnLoop_closed:
  "length buf = Suc P \<Longrightarrow> i \<le> P \<Longrightarrow>
   faceColumnLoop i P origin x offsetY buf positions =
     (take i buf @ map Some [length positions ..< length positions + (P - i)] @ drop P buf,
      positions @ map (\<lambda>k. add (add origin (multiplyByScalar x (real k / real P))) offsetY) [i..<P])"
proof (induction i P origin x offsetY buf positions rule: faceColumnLoop.induct)
  case (1 i P origin x offsetY buf positions)
  show ?case
  proof (cases "i < P")
    case True
    let ?v = "Some (length positions)"
    have a: "take (Suc i) (buf[i := ?v]) = take i buf @ [?v]"
      using True 1(2) by (simp add: take_Suc_conv_app_nth)
    have b: "drop P (buf[i := ?v]) = drop P buf"
      using True by simp
    have d: "[i..<P] = i # [Suc i..<P]"
      using True by (simp add: upt_conv_Cons)
    show ?thesis
      using True 1(2) 1(1)[OF True refl refl refl refl]
      apply (subst faceColumnLoop.simps)
      apply (subst upt_shift_Cons[OF True])
      apply (simp add: js_set_in a b d Let_def del: upt_Suc)
      done
  next
    case False
    then have "i = P" using 1(3) by simp
    then show ?thesis using 1(2)
      by (subst faceColumnLoop.simps) simp
  qed
qed

lemma faceQuadLoop_closed:
  "faceQuadLoop k P b t indices = indices @ concat (map (quad b t) [k..<P])"
proof (induction k P b t indices rule: faceQuadLoop.induct)
  case (1 k P b t indices)
  show ?case
  proof (cases "k < P")
    case True
    then show ?thesis using 1[OF True]
      by (subst faceQuadLoop.simps) (simp add: upt_conv_Cons quad_def[abs_def] del: upt_Suc)
  next
    case False
    then show ?thesis by (subst faceQuadLoop.simps) simp
  qed
qed

lemma drop_last_update: "length xs = Suc P \<Longrightarrow> drop P (xs[P := r]) = [r]"
proof -
  assume a: "length xs = Suc P"
  then have "P < length (xs[P := r])" by simp
  then have "drop P (xs[P := r]) = (xs[P := r]) ! P # drop (Suc P) (xs[P := r])"
    by (rule Cons_nth_drop_Suc[symmetric])
  also have "\<dots> = [r]" using a by simp
  finally show ?thesis .
qed

lemma row_buffer_ends:
  assumes "2 \<le> P" "buf = [] \<or> length buf = Suc P"
  shows "length (js_set (js_set buf 0 l) P r) = Suc P"
    and "take 1 (js_set (js_set buf 0 l) P r) = [l]"
    and "drop P (js_set (js_set buf 0 l) P r) = [r]"
  using assms by (auto simp: js_set_def take_Suc_conv_app_nth drop_Cons' drop_last_update split: if_splits)

lemma faceRowLoop_finish:
  "faceRowLoop (Suc P) P L R T origin x y bottom buf ps indices = (ps, indices)"
  by (subst faceRowLoop.simps) simp

lemma faceRowLoop_last:
  "faceRowLoop P P L R T origin x y bottom buf ps indices =
     (ps, indices @ quadTriangles P (if P \<noteq> 1 then buf else bottom) T)"
  by (subst faceRowLoop.simps)
     (simp add: faceRowLoop_finish Let_def faceQuadLoop_closed quadTriangles_def)

lemma faceRowLoop_inner:
  assumes "1 \<le> j" "j < P" "buf = [] \<or> length buf = Suc P"
  shows "faceRowLoop j P L R T origin x y bottom buf ps indices =
     faceRowLoop (Suc j) P L R T origin x y (if j \<noteq> 1 then buf else bottom)
       (js_get L j # map Some [length ps ..< length ps + (P - 1)] @ [js_get R j])
       (ps @ gridRow P origin x y j)
       (indices @ quadTriangles P (if j \<noteq> 1 then buf else bottom)
          (js_get L j # map Some [length ps ..< length ps + (P - 1)] @ [js_get R j]))"
proof -
  have P2: "2 \<le> P" using assms by simp
  note e = row_buffer_ends[OF P2 assms(3)]
  have P1: "1 \<le> P" using assms by simp
  show ?thesis
    apply (subst faceRowLoop.simps)
    using assms(1,2)
    apply (simp only: Let_def faceColumnLoop_closed[OF e(1) P1] e(2,3) fst_conv snd_conv
           faceQuadLoop_closed quadTriangles_def gridRow_def)
    apply simp
    done
qed

lemma length_gridRow: "length (gridRow P origin x y j) = P - 1"
  by (simp add: gridRow_def)

lemma faceRowLoop_closed:
  assumes "1 \<le> j" "j \<le> P" "length ps = n + (j - 1) * (P - 1)"
    "buf = [] \<or> length buf = Suc P"
    "prev = (if j \<noteq> 1 then buf else bottom)"
  shows "faceRowLoop j P L R T origin x y bottom buf ps indices =
     (ps @ concat (map (gridRow P origin x y) [j..<P]),
      indices @ quadTriangles P prev (faceRow L B R T P n j) @
        concat (map (\<lambda>m. quadTriangles P (faceRow L B R T P n (m - 1)) (faceRow L B R T P n m))
                    [Suc j..<Suc P]))"
  using assms
proof (induction "P - j" arbitrary: j buf bottom ps indices prev)
  case 0
  then have jP: "j = P" by simp
  have "faceRow L B R T P n P = T" using 0(2) jP by (simp add: faceRow_def)
  then show ?case
    using 0 unfolding jP by (simp add: faceRowLoop_last)
next
  case (Suc d)
  then have lt: "j < P" by simp
  let ?row = "js_get L j # map Some [length ps ..< length ps + (P - 1)] @ [js_get R j]"
  have row: "faceRow L B R T P n j = ?row"
    using Suc.prems(1,3) lt by (simp add: faceRow_def)
  have len: "length (ps @ gridRow P origin x y j) = n + (Suc j - 1) * (P - 1)"
    using Suc.prems(1,3) by (cases j) (simp_all add: length_gridRow)
  have ih: "faceRowLoop (Suc j) P L R T origin x y prev ?row (ps @ gridRow P origin x y j)
              (indices @ quadTriangles P prev ?row) =
     ((ps @ gridRow P origin x y j) @ concat (map (gridRow P origin x y) [Suc j..<P]),
      (indices @ quadTriangles P prev ?row) @ quadTriangles P ?row (faceRow L B R T P n (Suc j)) @
        concat (map (\<lambda>m. quadTriangles P (faceRow L B R T P n (m - 1)) (faceRow L B R T P n m))
                    [Suc (Suc j)..<Suc P]))"
    using Suc.hyps(2) lt Suc.prems(1)
    by (intro Suc.hyps(1)[OF _ _ _ len]) simp_all
  have u1: "[j..<P] = j # [Suc j..<P]" using lt by (simp add: upt_conv_Cons)
  have u2: "[Suc j..<Suc P] = Suc j # [Suc (Suc j)..<Suc P]"
    using lt by (simp add: upt_conv_Cons del: upt_Suc)
  show ?case
    unfolding faceRowLoop_inner[OF Suc.prems(1) lt Suc.prems(4)] Suc.prems(5)[symmetric] ih u1 u2
    by (simp add: row del: upt_Suc)
qed

lemma addFaceTriangles_closed:
  assumes "1 \<le> P"
    "positionAt ps (js_last B) = Some pr"
    "positionAt ps (js_get B 0) = Some origin"
    "positionAt ps (js_get T 0) = Some pt"
  shows "addFaceTriangles L B R T P ps indices =
     Inr (ps @ faceGrid P origin (subtract pr origin) (subtract pt origin),
          indices @ faceTriangles L B R T P (length ps))"
proof -
  have u: "[1..<Suc P] = 1 # [Suc 1..<Suc P]"
    using assms(1) by (simp add: upt_conv_Cons del: upt_Suc)
  have z: "faceRow L B R T P (length ps) 0 = B" by (simp add: faceRow_def)
  show ?thesis
    unfolding addFaceTriangles_def Let_def assms(2,3,4) faceGrid_def faceTriangles_def u
    using faceRowLoop_closed[OF order_refl assms(1), where n = "length ps" and ps = ps
        and buf = "[]" and prev = B and bottom = B and B = B]
    by (simp add: z del: upt_Suc)
qed

lemma length_cubeCorners: "length cubeCorners = 8"
  by (simp add: cubeCorners_def)

lemma length_edgePoints: "length (edgePoints a b P) = P - 1"
  by (simp add: edgePoints_def)

lemma andThen_Inr: "andThen (Inr v) f = f v"
  by (simp add: andThen_def)

lemma edge_step:
  assumes "1 \<le> P" "a < 8" "b < 8"
  shows "addEdgePositions a b P (cubeCorners @ X) =
     Inr (edgeIndexList a b P (8 + length X),
          cubeCorners @ X @ edgePoints (cubeCorners ! a) (cubeCorners ! b) P)"
  using addEdgePositions_closed[OF assms(1), of a "cubeCorners @ X" b] assms(2,3)
  by (simp add: length_cubeCorners nth_append)

lemma addCubeEdges_closed:
  assumes "1 \<le> P"
  shows "addCubeEdges P cubeCorners = Inr (cubeEdgeLists P, cubeEdgePositions P)"
proof -
  have c: "cubeCorners = cubeCorners @ []" by simp
  show ?thesis
    unfolding addCubeEdges_def
    apply (subst c)
    apply (simp only: edge_step[OF assms] andThen_Inr prod.case append_Nil append_assoc
        length_append length_edgePoints list.size)
    apply (simp add: cubeEdgeLists_def cubeEdgePositions_def cubeEdgeEnds_def add.commute)
    done
qed

lemma addFaceTriangles_unfold:
  assumes "1 \<le> P"
  shows "addFaceTriangles L B R T P ps indices =
     (case (positionAt ps (js_last B), positionAt ps (js_get B 0)) of
        (Some pr, Some origin) \<Rightarrow>
          (case positionAt ps (js_get T 0) of
             Some pt \<Rightarrow>
               Inr (ps @ faceGrid P origin (subtract pr origin) (subtract pt origin),
                    indices @ faceTriangles L B R T P (length ps))
           | None \<Rightarrow> Inl UndefinedOperand)
      | _ \<Rightarrow> Inl UndefinedOperand)"
proof (cases "positionAt ps (js_last B)")
  case None
  then show ?thesis by (simp add: addFaceTriangles_def)
next
  case pr: (Some pr)
  show ?thesis
  proof (cases "positionAt ps (js_get B 0)")
    case None
    then show ?thesis by (simp add: addFaceTriangles_def pr)
  next
    case origin: (Some origin)
    show ?thesis
    proof (cases "positionAt ps (js_get T 0)")
      case None
      then show ?thesis by (simp add: addFaceTriangles_def pr origin)
    next
      case (Some pt)
      then show ?thesis
        using addFaceTriangles_closed[OF assms pr origin Some] by (simp add: pr origin)
    qed
  qed
qed

lemma js_get_edge_first: "js_get (edgeIndexList a b P n) 0 = Some a"
  by (simp add: js_get_def edgeIndexList_def)

lemma js_last_edge: "js_last (edgeIndexList a b P n) = Some b"
  by (simp add: js_last_def js_get_def edgeIndexList_def nth_append)

lemma js_get_rev_edge_first: "js_get (rev (edgeIndexList a b P n)) 0 = Some b"
  by (simp add: js_get_def edgeIndexList_def)

lemma js_last_rev_edge: "js_last (rev (edgeIndexList a b P n)) = Some a"
  by (simp add: js_last_def js_get_def edgeIndexList_def nth_append)

lemma positionAt_corner:
  "a < 8 \<Longrightarrow> positionAt (cubeCorners @ X) (Some a) = Some (cubeCorners ! a)"
  by (simp add: positionAt_def length_cubeCorners nth_append)

lemma length_faceGrid: "length (faceGrid P origin x y) = (P - 1) * (P - 1)"
  by (simp add: faceGrid_def length_concat comp_def gridRow_def sum_list_triv)

lemma length_cubeEdgePositions: "length (cubeEdgePositions P) = 8 + 12 * (P - 1)"
  by (simp add: cubeEdgePositions_def cubeEdgeEnds_def length_cubeCorners length_edgePoints)

lemma addFaces_closed:
  assumes "1 \<le> P"
  shows "list_all2 cornerFace fs frames \<Longrightarrow>
     addFaces fs P (cubeCorners @ X) idx =
       Inr (cubeCorners @ X @ concat (map (cubeFaceGrid P) frames),
            idx @ facesTriangles fs P (8 + length X))"
proof (induction fs frames arbitrary: X idx rule: list_all2_induct)
  case Nil
  then show ?case by simp
next
  case (Cons f fs c frames)
  obtain l b r t where f: "f = (l, b, r, t)" by (cases f) auto
  obtain i j k where c: "c = (i, j, k)" by (cases c) auto
  from Cons.hyps(1) have g: "js_get b 0 = Some i" "js_last b = Some j" "js_get t 0 = Some k"
    "i < 8" "j < 8" "k < 8"
    by (simp_all add: cornerFace_def f c)
  have step: "addFaceTriangles l b r t P (cubeCorners @ X) idx =
      Inr (cubeCorners @ (X @ cubeFaceGrid P c),
           idx @ faceTriangles l b r t P (8 + length X))"
    unfolding addFaceTriangles_unfold[OF assms] g(1,2,3)
    using g(4,5,6) by (simp add: positionAt_corner cubeFaceGrid_def c length_cubeCorners)
  have len: "8 + length (X @ cubeFaceGrid P c) = 8 + length X + (P - 1) * (P - 1)"
    by (simp add: cubeFaceGrid_def c length_faceGrid)
  show ?case
    unfolding f addFaces.simps step andThen_Inr prod.case Cons.IH len
    by (simp add: f)
qed

lemma cubeFaces_corner:
  "list_all2 cornerFace (cubeFaces (cubeEdgeLists P)) cubeFaceFrames"
  by (simp add: cubeFaces_def cubeEdgeLists_def cubeFaceFrames_def cornerFace_def
      js_get_edge_first js_last_edge js_get_rev_edge_first js_last_rev_edge)

lemma cubeMesh_closed:
  assumes "1 \<le> P"
  shows "cubeMesh P = Inr (cubePositions P, cubeIndices P)"
proof -
  have e: "cubeEdgePositions P = cubeCorners @ drop 8 (cubeEdgePositions P)"
    by (simp add: cubeEdgePositions_def length_cubeCorners)
  have l: "8 + length (drop 8 (cubeEdgePositions P)) = 8 + 12 * (P - 1)"
    by (simp add: length_cubeEdgePositions)
  have "cubeMesh P =
      addFaces (cubeFaces (cubeEdgeLists P)) P (cubeCorners @ drop 8 (cubeEdgePositions P)) []"
    unfolding cubeMesh_def addCubeEdges_closed[OF assms] andThen_Inr prod.case
    using e by simp
  also have "\<dots> = Inr (cubePositions P, cubeIndices P)"
    unfolding addFaces_closed[OF assms cubeFaces_corner] l
    using e by (simp add: cubePositions_def cubeIndices_def)
  finally show ?thesis .
qed

lemma length_quadTriangles: "length (quadTriangles P b t) = 6 * P"
  by (simp add: quadTriangles_def length_concat comp_def quad_def sum_list_triv)

lemma length_faceTriangles: "length (faceTriangles l b r t P n) = 6 * P * P"
  by (simp add: faceTriangles_def length_concat comp_def length_quadTriangles sum_list_triv
      del: upt_Suc)

lemma length_facesTriangles: "length (facesTriangles fs P n) = length fs * (6 * P * P)"
  by (induction fs P n rule: facesTriangles.induct) (simp_all add: length_faceTriangles)

lemma length_cubePositions:
  "length (cubePositions P) = 8 + 12 * (P - 1) + 6 * ((P - 1) * (P - 1))"
  by (simp add: cubePositions_def length_cubeEdgePositions cubeFaceFrames_def cubeFaceGrid_def
      length_faceGrid)

lemma length_cubeIndices: "length (cubeIndices P) = 36 * (P * P)"
  unfolding cubeIndices_def length_facesTriangles by (simp add: cubeFaces_def)

section \<open>Lists of blocks of equal length, and the points of an edge\<close>

lemma concat_uniform_block:
  "(\<forall>xs \<in> set xss. length xs = m) \<Longrightarrow> j < length xss \<Longrightarrow>
     take m (drop (j * m) (concat xss)) = xss ! j"
proof (induction xss arbitrary: j)
  case Nil
  then show ?case by simp
next
  case (Cons xs xss)
  show ?case
  proof (cases j)
    case 0
    then show ?thesis using Cons.prems by simp
  next
    case (Suc j')
    have "drop (j * m) (concat (xs # xss)) = drop (j' * m) (concat xss)"
      using Cons.prems(1) Suc by simp
    then show ?thesis
      using Cons.IH[of j'] Cons.prems Suc by simp
  qed
qed

lemma concat_uniform_nth:
  "(\<forall>xs \<in> set xss. length xs = m) \<Longrightarrow> j < length xss \<Longrightarrow> i < m \<Longrightarrow>
     concat xss ! (j * m + i) = xss ! j ! i"
proof (induction xss arbitrary: j)
  case Nil
  then show ?case by simp
next
  case (Cons xs xss)
  show ?case
  proof (cases j)
    case 0
    then show ?thesis using Cons.prems by (simp add: nth_append)
  next
    case (Suc j')
    then show ?thesis
      using Cons.IH[of j'] Cons.prems by (simp add: nth_append)
  qed
qed

lemma upt_nth_pred: "1 \<le> i \<Longrightarrow> i < P \<Longrightarrow> [1..<P] ! (i - 1) = i"
  by (subst nth_upt) simp_all

lemma take_drop_take: "a + b \<le> c \<Longrightarrow> take a (drop b (take c xs)) = take a (drop b xs)"
  by (simp add: drop_take)

lemma length_edgeIndexList: "length (edgeIndexList a b P n) = Suc (Suc (P - 1))"
  by (simp add: edgeIndexList_def)

lemma js_get_edge_last: "1 \<le> P \<Longrightarrow> js_get (edgeIndexList a b P n) P = Some b"
  by (simp add: js_get_def edgeIndexList_def nth_append nth_Cons')

lemma js_get_edge_inner:
  "1 \<le> i \<Longrightarrow> i < P \<Longrightarrow> js_get (edgeIndexList a b P n) i = Some (n + (i - 1))"
  by (auto simp: js_get_def edgeIndexList_def nth_append nth_Cons')

lemma edgePoints_nth:
  assumes "1 \<le> i" "i < P"
  shows "edgePoints origin dest P ! (i - 1) =
           add origin (multiplyByScalar (subtract dest origin) (real i / real P))"
proof -
  have e: "[1..<P] ! (i - 1) = i" using assms by (rule upt_nth_pred)
  have "edgePoints origin dest P ! (i - 1) =
      add origin (multiplyByScalar (subtract dest origin) (real ([1..<P] ! (i - 1)) / real P))"
    unfolding edgePoints_def using assms by (intro nth_map) simp
  then show ?thesis unfolding e .
qed

section \<open>Grid points and triangle blocks of a face\<close>

lemma faceGrid_nth:
  assumes "1 \<le> i" "i < P" "1 \<le> j" "j < P"
  shows "faceGrid P origin x y ! ((j - 1) * (P - 1) + (i - 1)) =
           add (add origin (multiplyByScalar x (real i / real P)))
               (multiplyByScalar y (real j / real P))"
proof -
  have "faceGrid P origin x y ! ((j - 1) * (P - 1) + (i - 1)) =
        map (gridRow P origin x y) [1..<P] ! (j - 1) ! (i - 1)"
    unfolding faceGrid_def
    using assms by (intro concat_uniform_nth) (auto simp: length_gridRow)
  also have "\<dots> = gridRow P origin x y j ! (i - 1)"
    using assms by (simp add: upt_nth_pred del: One_nat_def)
  also have "\<dots> = add (add origin (multiplyByScalar x (real i / real P)))
               (multiplyByScalar y (real j / real P))"
  proof -
    have e: "[1..<P] ! (i - 1) = i" using assms(1,2) by (rule upt_nth_pred)
    have "gridRow P origin x y j ! (i - 1) =
        add (add origin (multiplyByScalar x (real ([1..<P] ! (i - 1)) / real P)))
               (multiplyByScalar y (real j / real P))"
      unfolding gridRow_def using assms by (intro nth_map) simp
    then show ?thesis unfolding e .
  qed
  finally show ?thesis .
qed

lemma faceTriangles_block:
  assumes "1 \<le> j" "j \<le> P" "k < P"
  shows "take 6 (drop (6 * ((j - 1) * P + k)) (faceTriangles l b r t P n)) =
           quad (faceRow l b r t P n (j - 1)) (faceRow l b r t P n j) k"
proof -
  let ?rows = "map (\<lambda>m. quadTriangles P (faceRow l b r t P n (m - 1)) (faceRow l b r t P n m))
                 [1..<Suc P]"
  have row: "take (6 * P) (drop ((j - 1) * (6 * P)) (concat ?rows)) = ?rows ! (j - 1)"
    using assms by (intro concat_uniform_block) (auto simp: length_quadTriangles)
  have rj: "?rows ! (j - 1) = quadTriangles P (faceRow l b r t P n (j - 1)) (faceRow l b r t P n j)"
    using assms upt_nth_pred[of j "Suc P"] by (simp del: upt_Suc One_nat_def)
  have "take 6 (drop (6 * ((j - 1) * P + k)) (concat ?rows)) =
        take 6 (drop (k * 6) (drop ((j - 1) * (6 * P)) (concat ?rows)))"
    by (simp add: algebra_simps)
  also have "\<dots> = take 6 (drop (k * 6) (take (6 * P) (drop ((j - 1) * (6 * P)) (concat ?rows))))"
    using assms(3) by (intro take_drop_take[symmetric]) simp
  also have "\<dots> = take 6 (drop (k * 6)
        (concat (map (quad (faceRow l b r t P n (j - 1)) (faceRow l b r t P n j)) [0..<P])))"
    by (simp only: row rj) (simp only: quadTriangles_def)
  also have "\<dots> = map (quad (faceRow l b r t P n (j - 1)) (faceRow l b r t P n j)) [0..<P] ! k"
    using assms(3) by (intro concat_uniform_block) (auto simp: quad_def)
  also have "\<dots> = quad (faceRow l b r t P n (j - 1)) (faceRow l b r t P n j) k"
    using assms(3) by simp
  finally show ?thesis by (simp add: faceTriangles_def)
qed

lemma faceRow_inner:
  assumes "1 \<le> i" "i < P" "1 \<le> j" "j < P"
  shows "js_get (faceRow l b r t P n j) i = Some (n + (j - 1) * (P - 1) + (i - 1))"
  using assms by (auto simp: faceRow_def js_get_def nth_append nth_Cons')

section \<open>Edge lists and rows name positions\<close>

lemma valid_edgeIndexList:
  assumes "1 \<le> P" "a < N" "b < N" "n + (P - 1) \<le> N"
  shows "list_all (validIndex N) (edgeIndexList a b P n)"
  using assms by (auto simp: edgeIndexList_def validIndex_def list_all_iff)

lemma valid_js_get:
  assumes "list_all (validIndex N) row" "k < length row"
  shows "validIndex N (js_get row k)"
  using assms by (simp add: js_get_def list_all_length)

lemma mult_pred_le: "1 \<le> (m::nat) \<Longrightarrow> m < P \<Longrightarrow> (m - 1) * (P - 1) + (P - 1) \<le> (P - 1) * (P - 1)"
proof -
  assume a: "1 \<le> m" "m < P"
  obtain k where "m = Suc k" using a by (cases m) auto
  then have "(m - 1) * (P - 1) + (P - 1) = m * (P - 1)"
    by simp
  moreover have "m * (P - 1) \<le> (P - 1) * (P - 1)"
    using a by (intro mult_le_mono1) simp
  ultimately show ?thesis by simp
qed

lemma length_faceRow:
  assumes "1 \<le> P" "length b = Suc P" "length t = Suc P"
  shows "length (faceRow l b r t P n m) = Suc P"
  using assms by (simp add: faceRow_def)

lemma valid_faceRow:
  assumes "1 \<le> P" "m \<le> P"
    "list_all (validIndex N) l" "length l = Suc P"
    "list_all (validIndex N) b"
    "list_all (validIndex N) r" "length r = Suc P"
    "list_all (validIndex N) t"
    "n + (P - 1) * (P - 1) \<le> N"
  shows "list_all (validIndex N) (faceRow l b r t P n m)"
proof (cases "m = 0 \<or> m = P")
  case True
  then show ?thesis using assms(5,8) by (auto simp: faceRow_def)
next
  case False
  then have m: "1 \<le> m" "m < P" using assms(2) by simp_all
  have l: "validIndex N (js_get l m)" using assms(3,4) m by (intro valid_js_get) simp_all
  have r: "validIndex N (js_get r m)" using assms(6,7) m by (intro valid_js_get) simp_all
  have "n + (m - 1) * (P - 1) + (P - 1) \<le> N"
    using mult_pred_le[OF m] assms(9) by simp
  then have "list_all (validIndex N)
      (map Some [n + (m - 1) * (P - 1) ..< n + (m - 1) * (P - 1) + (P - 1)])"
    by (auto simp: list_all_iff validIndex_def)
  then show ?thesis using False l r by (simp add: faceRow_def)
qed

lemma valid_quadTriangles:
  assumes "list_all (validIndex N) b" "length b = Suc P"
    "list_all (validIndex N) t" "length t = Suc P"
  shows "list_all (validIndex N) (quadTriangles P b t)"
proof -
  have "\<And>k. k < P \<Longrightarrow> list_all (validIndex N) (quad b t k)"
    using assms by (simp add: quad_def valid_js_get)
  then show ?thesis
    by (auto simp: quadTriangles_def list_all_iff)
qed

lemma valid_faceTriangles:
  assumes "1 \<le> P"
    "list_all (validIndex N) l" "length l = Suc P"
    "list_all (validIndex N) b" "length b = Suc P"
    "list_all (validIndex N) r" "length r = Suc P"
    "list_all (validIndex N) t" "length t = Suc P"
    "n + (P - 1) * (P - 1) \<le> N"
  shows "list_all (validIndex N) (faceTriangles l b r t P n)"
proof -
  have row: "\<And>m. m \<le> P \<Longrightarrow> list_all (validIndex N) (faceRow l b r t P n m)
      \<and> length (faceRow l b r t P n m) = Suc P"
    using assms by (simp add: valid_faceRow length_faceRow)
  have "\<And>m. 1 \<le> m \<Longrightarrow> m \<le> P \<Longrightarrow>
      list_all (validIndex N) (quadTriangles P (faceRow l b r t P n (m - 1)) (faceRow l b r t P n m))"
    using row by (intro valid_quadTriangles) simp_all
  then show ?thesis
    unfolding faceTriangles_def by (auto simp: list_all_iff simp del: upt_Suc)
qed

lemma valid_facesTriangles:
  "1 \<le> P \<Longrightarrow> list_all (validFace N P) fs \<Longrightarrow>
     n + length fs * ((P - 1) * (P - 1)) \<le> N \<Longrightarrow>
     list_all (validIndex N) (facesTriangles fs P n)"
proof (induction fs P n rule: facesTriangles.induct)
  case (1 P n)
  then show ?case by simp
next
  case (2 l b r t faces P n)
  have "n + (P - 1) * (P - 1) \<le> N" using 2(4) by simp
  then have "list_all (validIndex N) (faceTriangles l b r t P n)"
    using 2(2,3) by (intro valid_faceTriangles) (simp_all add: validFace_def)
  moreover have "n + (P - 1) * (P - 1) + length faces * ((P - 1) * (P - 1)) \<le> N"
    using 2(4) by simp
  then have "list_all (validIndex N) (facesTriangles faces P (n + (P - 1) * (P - 1)))"
    using 2(3) by (intro 2(1)[OF 2(2)]) simp_all
  ultimately show ?case by simp
qed

lemma valid_cubeFaces:
  assumes "1 \<le> P" "8 + 12 * (P - 1) \<le> N"
  shows "list_all (validFace N P) (cubeFaces (cubeEdgeLists P))"
proof -
  have e: "\<And>a b n. a < 8 \<Longrightarrow> b < 8 \<Longrightarrow> n + (P - 1) \<le> N \<Longrightarrow>
      list_all (validIndex N) (edgeIndexList a b P n)"
    using assms by (intro valid_edgeIndexList) simp_all
  have l: "\<And>a b n. length (edgeIndexList a b P n) = Suc P"
    using assms(1) by (simp add: length_edgeIndexList)
  show ?thesis
    using assms(2)
    by (simp add: cubeFaces_def cubeEdgeLists_def validFace_def l e)
qed

section \<open>The attribute passes\<close>

lemma flatten_Nil: "flatten [] = []"
  by (simp add: flatten_def)

lemma flatten_Cons: "flatten (p # ps) = x3 p # y3 p # z3 p # flatten ps"
  by (simp add: flatten_def)

lemma positionLoop_closed:
  "i \<le> length ps \<Longrightarrow>
   positionLoop i rad ps flat =
     (take i ps @ map (toEllipsoid rad) (drop i ps),
      flat @ flatten (map (toEllipsoid rad) (drop i ps)))"
proof (induction i rad ps flat rule: positionLoop.induct)
  case (1 i rad ps flat)
  show ?case
  proof (cases "i < length ps")
    case True
    let ?item = "toEllipsoid rad (ps ! i)"
    have a: "take (Suc i) (ps[i := ?item]) = take i ps @ [?item]"
      using True by (simp add: take_Suc_conv_app_nth)
    have d: "drop i ps = ps ! i # drop (Suc i) ps"
      using True by (simp add: Cons_nth_drop_Suc)
    have ih: "positionLoop (Suc i) rad (ps[i := ?item]) (flat @ [x3 ?item, y3 ?item, z3 ?item]) =
        (take (Suc i) (ps[i := ?item]) @ map (toEllipsoid rad) (drop (Suc i) (ps[i := ?item])),
         (flat @ [x3 ?item, y3 ?item, z3 ?item]) @
           flatten (map (toEllipsoid rad) (drop (Suc i) (ps[i := ?item]))))"
      using True by (intro 1(1)[OF True]) (simp_all add: toEllipsoid_def)
    show ?thesis
      apply (subst positionLoop.simps)
      using True ih
      apply (simp add: Let_def a d toEllipsoid_def[symmetric] flatten_Cons)
      done
  next
    case False
    then show ?thesis using 1(2)
      by (subst positionLoop.simps) (simp add: flatten_Nil)
  qed
qed

lemma texCoord_unfold:
  "[atan2 (y3 (normalize3 (multiplyComponents p oor))) (x3 (normalize3 (multiplyComponents p oor)))
      * ONE_OVER_TWO_PI + 0.5,
    arcsin (z3 (normalize3 (multiplyComponents p oor))) * ONE_OVER_PI + 0.5] = texCoord oor p"
  by (simp add: texCoord_def Let_def)

lemma stLoop_closed:
  "i \<le> length ps \<Longrightarrow>
   stLoop i oor ps tex = tex @ concat (map (texCoord oor) (drop i ps))"
proof (induction i oor ps tex rule: stLoop.induct)
  case (1 i oor ps tex)
  show ?case
  proof (cases "i < length ps")
    case True
    have d: "drop i ps = ps ! i # drop (Suc i) ps"
      using True by (simp add: Cons_nth_drop_Suc)
    show ?thesis
      apply (subst stLoop.simps)
      using True 1(1)[OF True refl refl]
      apply (simp only: Let_def d texCoord_unfold if_True list.map concat.simps)
      apply simp
      done
  next
    case False
    then show ?thesis using 1(2)
      by (subst stLoop.simps) simp
  qed
qed

lemma normalLoop_closed:
  "i \<le> length ps \<Longrightarrow>
   normalLoop i e ps ns ts bs =
     (ns @ flatten (map (geodeticSurfaceNormal e) (drop i ps)),
      ts @ flatten (map (vertexTangent e) (drop i ps)),
      bs @ flatten (map (vertexBinormal e) (drop i ps)))"
proof (induction i e ps ns ts bs rule: normalLoop.induct)
  case (1 i e ps ns ts bs)
  show ?case
  proof (cases "i < length ps")
    case True
    have d: "drop i ps = ps ! i # drop (Suc i) ps"
      using True by (simp add: Cons_nth_drop_Suc)
    show ?thesis
      apply (subst normalLoop.simps)
      using True 1(1)[OF True refl refl refl]
      apply (simp add: Let_def d vertexTangent_def[symmetric] vertexBinormal_def[symmetric] flatten_Cons)
      done
  next
    case False
    then show ?thesis using 1(2)
      by (subst normalLoop.simps) (simp add: flatten_Nil)
  qed
qed

lemma vertexAt_flatten: "i < length ps \<Longrightarrow> vertexAt (flatten ps) i = ps ! i"
proof -
  assume a: "i < length ps"
  let ?xss = "map (\<lambda>p. [x3 p, y3 p, z3 p]) ps"
  have u: "\<forall>xs \<in> set ?xss. length xs = 3" by auto
  have n: "\<And>k. k < 3 \<Longrightarrow> concat ?xss ! (i * 3 + k) = ?xss ! i ! k"
    using a by (intro concat_uniform_nth[OF u]) simp_all
  have "concat ?xss ! (3 * i) = x3 (ps ! i)" using n[of 0] a by (simp add: mult.commute)
  moreover have "concat ?xss ! (3 * i + 1) = y3 (ps ! i)" using n[of 1] a by (simp add: mult.commute)
  moreover have "concat ?xss ! (3 * i + 2) = z3 (ps ! i)" using n[of 2] a by (simp add: mult.commute)
  ultimately show ?thesis by (simp add: vertexAt_def flatten_def)
qed

lemma EllipsoidGeometry_closed:
  assumes "0 < defaultValue (numberOfPartitions options) 32"
  shows "EllipsoidGeometry options =
     (let ell = defaultValue (ellipsoid options) UNIT_SPHERE;
          P = nat (defaultValue (numberOfPartitions options) 32);
          fmt = defaultValue (vertexFormat options) DEFAULT;
          ps = passPositions fmt ell P
      in Inr \<lparr>attributes =
                 \<lparr>positionAttribute =
                    (if position fmt
                     then Some \<lparr>componentsPerAttribute = 3, attributeValues = flatten ps\<rparr>
                     else None),
                  stAttribute =
                    (if st fmt
                     then Some \<lparr>componentsPerAttribute = 2,
                                attributeValues = concat (map (texCoord (getOneOverRadii ell)) ps)\<rparr>
                     else None),
                  normalAttribute =
                    (if normal fmt
                     then Some \<lparr>componentsPerAttribute = 3,
                                attributeValues = flatten (map (geodeticSurfaceNormal ell) ps)\<rparr>
                     else None),
                  tangentAttribute =
                    (if tangent fmt
                     then Some \<lparr>componentsPerAttribute = 3,
                                attributeValues = flatten (map (vertexTangent ell) ps)\<rparr>
                     else None),
                  binormalAttribute =
                    (if binormal fmt
                     then Some \<lparr>componentsPerAttribute = 3,
                                attributeValues = flatten (map (vertexBinormal ell) ps)\<rparr>
                     else None)\<rparr>,
               indexLists = [cubeIndices P],
               boundingSphere = fromEllipsoid ell\<rparr>)"
proof -
  have P: "1 \<le> nat (defaultValue (numberOfPartitions options) 32)" using assms by simp
  show ?thesis
    using assms
    by (simp add: EllipsoidGeometry_def Let_def cubeMesh_closed[OF P] andThen_Inr
        positionLoop_closed stLoop_closed normalLoop_closed passPositions_def)
qed

lemma length_passPositions: "length (passPositions fmt ell P) = length (cubePositions P)"
  by (simp add: passPositions_def)

lemma attributeVertex_normal:
  assumes "0 < defaultValue (numberOfPartitions options) 32"
    "normal (defaultValue (vertexFormat options) DEFAULT)"
    "i < length (cubePositions (nat (defaultValue (numberOfPartitions options) 32)))"
  shows "attributeVertex normalAttribute options i =
     Some (geodeticSurfaceNormal (defaultValue (ellipsoid options) UNIT_SPHERE)
       (passPositions (defaultValue (vertexFormat options) DEFAULT)
          (defaultValue (ellipsoid options) UNIT_SPHERE)
          (nat (defaultValue (numberOfPartitions options) 32)) ! i))"
  using assms(2,3)
  by (simp add: attributeVertex_def EllipsoidGeometry_closed[OF assms(1)] Let_def
      vertexAt_flatten length_passPositions)

lemma attributeVertex_tangent:
  assumes "0 < defaultValue (numberOfPartitions options) 32"
    "tangent (defaultValue (vertexFormat options) DEFAULT)"
    "i < length (cubePositions (nat (defaultValue (numberOfPartitions options) 32)))"
  shows "attributeVertex tangentAttribute options i =
     Some (vertexTangent (defaultValue (ellipsoid options) UNIT_SPHERE)
       (passPositions (defaultValue (vertexFormat options) DEFAULT)
          (defaultValue (ellipsoid options) UNIT_SPHERE)
          (nat (defaultValue (numberOfPartitions options) 32)) ! i))"
  using assms(2,3)
  by (simp add: attributeVertex_def EllipsoidGeometry_closed[OF assms(1)] Let_def
      vertexAt_flatten length_passPositions)

lemma attributeVertex_binormal:
  assumes "0 < defaultValue (numberOfPartitions options) 32"
    "binormal (defaultValue (vertexFormat options) DEFAULT)"
    "i < length (cubePositions (nat (defaultValue (numberOfPartitions options) 32)))"
  shows "attributeVertex binormalAttribute options i =
     Some (vertexBinormal (defaultValue (ellipsoid options) UNIT_SPHERE)
       (passPositions (defaultValue (vertexFormat options) DEFAULT)
          (defaultValue (ellipsoid options) UNIT_SPHERE)
          (nat (defaultValue (numberOfPartitions options) 32)) ! i))"
  using assms(2,3)
  by (simp add: attributeVertex_def EllipsoidGeometry_closed[OF assms(1)] Let_def
      vertexAt_flatten length_passPositions)

lemma length_texCoord: "length (texCoord oor p) = 2"
  by (simp add: texCoord_def Let_def)

lemma texCoords_nth:
  assumes "i < length ps" "k < 2"
  shows "concat (map (texCoord oor) ps) ! (2 * i + k) = texCoord oor (ps ! i) ! k"
proof -
  have "concat (map (texCoord oor) ps) ! (i * 2 + k) = map (texCoord oor) ps ! i ! k"
    using assms by (intro concat_uniform_nth) (auto simp: length_texCoord)
  then show ?thesis using assms(1) by (simp add: mult.commute)
qed

lemma attributeValue_st:
  assumes "0 < defaultValue (numberOfPartitions options) 32"
    "st (defaultValue (vertexFormat options) DEFAULT)"
    "i < length (cubePositions (nat (defaultValue (numberOfPartitions options) 32)))" "k < 2"
  shows "attributeValue stAttribute options (2 * i + k) =
     Some (texCoord (getOneOverRadii (defaultValue (ellipsoid options) UNIT_SPHERE))
       (passPositions (defaultValue (vertexFormat options) DEFAULT)
          (defaultValue (ellipsoid options) UNIT_SPHERE)
          (nat (defaultValue (numberOfPartitions options) 32)) ! i) ! k)"
  using assms(2,3,4)
  by (simp add: attributeValue_def EllipsoidGeometry_closed[OF assms(1)] Let_def
      texCoords_nth length_passPositions)

lemma attributeVertex_normal_explicit:
  assumes "0 < P" "normal fmt" "i < length (cubePositions (nat P))"
  shows "attributeVertex normalAttribute
           \<lparr>ellipsoid = Some ell, numberOfPartitions = Some P, vertexFormat = Some fmt\<rparr> i =
         Some (geodeticSurfaceNormal ell (passPositions fmt ell (nat P) ! i))"
  using attributeVertex_normal[of "\<lparr>ellipsoid = Some ell, numberOfPartitions = Some P,
      vertexFormat = Some fmt\<rparr>" i] assms
  by (simp add: defaultValue_def)

lemma attributeValue_st_explicit:
  assumes "0 < P" "st fmt" "i < length (cubePositions (nat P))" "k < 2"
  shows "attributeValue stAttribute
           \<lparr>ellipsoid = Some ell, numberOfPartitions = Some P, vertexFormat = Some fmt\<rparr>
           (2 * i + k) =
         Some (texCoord (getOneOverRadii ell) (passPositions fmt ell (nat P) ! i) ! k)"
  using attributeValue_st[of "\<lparr>ellipsoid = Some ell, numberOfPartitions = Some P,
      vertexFormat = Some fmt\<rparr>" i k] assms
  by (simp add: defaultValue_def)

lemma cubePositions_1: "cubePositions 1 = cubeCorners"
  by (simp add: cubePositions_def cubeEdgePositions_def cubeEdgeEnds_def edgePoints_def
      cubeFaceFrames_def cubeFaceGrid_def faceGrid_def)

lemma cubeIndices_1:
  "cubeIndices 1 = map Some [0, 1, 5, 0, 5, 4,  1, 2, 6, 1, 6, 5,  2, 3, 7, 2, 7, 6,
                             3, 0, 4, 3, 4, 7,  4, 5, 6, 4, 6, 7,  1, 0, 3, 1, 3, 2]"
  by (simp add: cubeIndices_def cubeFaces_def cubeEdgeLists_def edgeIndexList_def
      faceTriangles_def quadTriangles_def quad_def faceRow_def js_get_def)

section \<open>Normals and texture coordinates at radii (2, 1, 1)\<close>

lemma sqrt16: "sqrt 16 = 4"
  using real_sqrt_abs[of 4] by simp

lemma normal_without_position: "geodeticSurfaceNormal \<lparr>radii = Cartesian3 2 1 1\<rparr> (Cartesian3 (-1) 0 (-1))
   = Cartesian3 (- (1 / sqrt 17)) 0 (- (4 / sqrt 17))"
  apply (simp add: geodeticSurfaceNormal_def getOneOverRadiiSquared_def multiplyComponents_def normalize3_def magnitude_def Let_def)
  apply (simp add: real_sqrt_divide sqrt16 field_simps)
  done

lemma projected_corner: "toEllipsoid (Cartesian3 2 1 1) (Cartesian3 (-1) 0 (-1)) = Cartesian3 (- sqrt 2) 0 (- (1 / sqrt 2))"
  apply (simp add: toEllipsoid_def normalize3_def magnitude_def multiplyComponents_def Let_def)
  using real_sqrt_mult_self[of 2] apply (simp add: field_simps)
  done

lemma normal_with_position: "geodeticSurfaceNormal \<lparr>radii = Cartesian3 2 1 1\<rparr> (Cartesian3 (- sqrt 2) 0 (- (1 / sqrt 2)))
   = Cartesian3 (- (1 / sqrt 5)) 0 (- (2 / sqrt 5))"
proof -
  have m: "magnitude (Cartesian3 (- sqrt 2 / 4) 0 (- (1 / sqrt 2))) = sqrt (5 / 8)"
    using real_sqrt_mult_self[of 2] by (simp add: magnitude_def field_simps)
  have s: "sqrt (5 / 8) = sqrt 5 / (2 * sqrt 2)"
  proof -
    have "sqrt (5 / 8) = sqrt 5 / sqrt (4 * 2)" by (simp add: real_sqrt_divide)
    also have "sqrt (4 * 2) = 2 * sqrt 2" by (simp only: real_sqrt_mult real_sqrt_four)
    finally show ?thesis .
  qed
  have v: "multiplyComponents (Cartesian3 (- sqrt 2) 0 (- (1 / sqrt 2)))
        (getOneOverRadiiSquared \<lparr>radii = Cartesian3 2 1 1\<rparr>) =
      Cartesian3 (- sqrt 2 / 4) 0 (- (1 / sqrt 2))"
    by (simp add: getOneOverRadiiSquared_def multiplyComponents_def)
  have x: "- sqrt 2 / 4 / (sqrt 5 / (2 * sqrt 2)) = - (1 / sqrt 5)"
    using real_sqrt_mult_self[of 2] by (simp add: field_simps)
  have z: "- (1 / sqrt 2) / (sqrt 5 / (2 * sqrt 2)) = - (2 / sqrt 5)"
    by (simp add: field_simps)
  show ?thesis
    unfolding geodeticSurfaceNormal_def v normalize3_def m s Let_def
    using x z by simp
qed

lemma arcsin_half_sqrt: "arcsin (- (1 / sqrt 2)) = - (pi / 4)"
proof -
  have e: "1 / sqrt 2 = sqrt 2 / 2"
    using real_sqrt_mult_self[of 2] by (simp add: field_simps)
  have "arcsin (sin (pi / 4)) = pi / 4"
    by (intro arcsin_sin) simp_all
  then have "arcsin (1 / sqrt 2) = pi / 4"
    by (simp add: sin_45 e)
  moreover have "0 \<le> 1 / sqrt 2" by simp
  then have "- 1 \<le> 1 / sqrt 2" by linarith
  moreover have "1 / sqrt 2 \<le> 1" by simp
  ultimately show ?thesis by (simp add: arcsin_minus)
qed

lemma st_with_position:
  "texCoord (getOneOverRadii \<lparr>radii = Cartesian3 2 1 1\<rparr>)
     (Cartesian3 (- sqrt 2) 0 (- (1 / sqrt 2))) ! 1 = 1 / 4"
proof -
  have e: "sqrt 2 / 2 = 1 / sqrt 2"
    using real_sqrt_mult_self[of 2] by (simp add: field_simps)
  have v: "multiplyComponents (Cartesian3 (- sqrt 2) 0 (- (1 / sqrt 2)))
      (getOneOverRadii \<lparr>radii = Cartesian3 2 1 1\<rparr>) = Cartesian3 (- (1 / sqrt 2)) 0 (- (1 / sqrt 2))"
    using e by (simp add: multiplyComponents_def getOneOverRadii_def)
  have h: "1 / sqrt 2 * (1 / sqrt 2) = 1 / 2"
    using real_sqrt_mult_self[of 2] by (simp add: field_simps)
  have m: "magnitude (Cartesian3 (- (1 / sqrt 2)) 0 (- (1 / sqrt 2))) = 1"
    using h by (simp add: magnitude_def)
  show ?thesis
    unfolding texCoord_def v normalize3_def m Let_def
    by (simp add: arcsin_half_sqrt ONE_OVER_PI_def)
qed

lemma st_without_position:
  "texCoord (getOneOverRadii \<lparr>radii = Cartesian3 2 1 1\<rparr>) (Cartesian3 (- 1) 0 (- 1)) ! 1 =
     arcsin (- (2 / sqrt 5)) / pi + 1 / 2"
proof -
  have v: "multiplyComponents (Cartesian3 (- 1) 0 (- 1))
      (getOneOverRadii \<lparr>radii = Cartesian3 2 1 1\<rparr>) = Cartesian3 (- (1 / 2)) 0 (- 1)"
    by (simp add: multiplyComponents_def getOneOverRadii_def)
  have m: "magnitude (Cartesian3 (- (1 / 2)) 0 (- 1)) = sqrt 5 / 2"
  proof -
    have "magnitude (Cartesian3 (- (1 / 2)) 0 (- 1)) = sqrt (5 / 4)"
      by (simp add: magnitude_def)
    also have "\<dots> = sqrt 5 / 2" by (simp only: real_sqrt_divide real_sqrt_four)
    finally show ?thesis .
  qed
  show ?thesis
    unfolding texCoord_def v normalize3_def m Let_def
    by (simp add: ONE_OVER_PI_def)
qed

lemma st_values_differ: "arcsin (- (2 / sqrt 5)) / pi + 1 / 2 \<noteq> 1 / 4"
proof
  assume "arcsin (- (2 / sqrt 5)) / pi + 1 / 2 = 1 / 4"
  then have "arcsin (- (2 / sqrt 5)) = - (pi / 4)"
    by (simp add: field_simps)
  then have a: "arcsin (- (2 / sqrt 5)) = arcsin (- (1 / sqrt 2))"
    by (simp add: arcsin_half_sqrt)
  have "2 \<le> sqrt 5" by (rule real_le_rsqrt) simp
  then have b1: "\<bar>- (2 / sqrt 5)\<bar> \<le> 1" by simp
  have b2: "\<bar>- (1 / sqrt 2)\<bar> \<le> 1" by simp
  from a have "- (2 / sqrt 5) = - (1 / sqrt 2)"
    using arcsin_eq_iff[OF b1 b2] by simp
  then have "(2 / sqrt 5)\<^sup>2 = (1 / sqrt 2)\<^sup>2" by simp
  then show False by (simp add: power2_eq_square)
qed

section \<open>Interior points of the faces\<close>

lemma grid_offset_less:
  assumes "1 \<le> (i::nat)" "i < P" "1 \<le> (j::nat)" "j < P"
  shows "(j - 1) * (P - 1) + (i - 1) < (P - 1) * (P - 1)"
proof -
  have "(j - 1) * (P - 1) + (i - 1) < (j - 1) * (P - 1) + (P - 1)"
    using assms by simp
  also have "\<dots> \<le> (P - 1) * (P - 1)"
    using assms by (intro mult_pred_le)
  finally show ?thesis .
qed

lemma cubePositions_face_nth:
  assumes "k < 6" "1 \<le> i" "i < P" "1 \<le> j" "j < P"
  shows "cubePositions P ! (8 + 12 * (P - 1) + k * ((P - 1) * (P - 1)) + (j - 1) * (P - 1) + (i - 1))
     = cubeFaceGrid P (cubeFaceFrames ! k) ! ((j - 1) * (P - 1) + (i - 1))"
proof -
  let ?m = "(P - 1) * (P - 1)"
  let ?r = "(j - 1) * (P - 1) + (i - 1)"
  let ?grids = "map (cubeFaceGrid P) cubeFaceFrames"
  have u: "\<forall>xs \<in> set ?grids. length xs = ?m"
    by (auto simp: cubeFaceGrid_def length_faceGrid split: prod.splits)
  have r: "?r < ?m" using assms(2-5) by (rule grid_offset_less)
  have k: "k < length ?grids" using assms(1) by (simp add: cubeFaceFrames_def)
  have "cubePositions P ! (length (cubeEdgePositions P) + (k * ?m + ?r)) = concat ?grids ! (k * ?m + ?r)"
    unfolding cubePositions_def by (rule nth_append_length_plus)
  also have "\<dots> = ?grids ! k ! ?r"
    using u k r by (rule concat_uniform_nth)
  also have "\<dots> = cubeFaceGrid P (cubeFaceFrames ! k) ! ?r"
    using k by simp
  finally show ?thesis
    by (simp add: length_cubeEdgePositions add.assoc)
qed

lemma half_ratio: "even P \<Longrightarrow> 2 \<le> P \<Longrightarrow> real (P div 2) / real P = 1 / 2"
  by (auto elim!: evenE)

lemma top_pole:
  assumes "even P" "2 \<le> P"
  shows "cubeFaceGrid P (cubeFaceFrames ! 4) ! ((P div 2 - 1) * (P - 1) + (P div 2 - 1))
     = Cartesian3 0 0 1"
proof -
  have h: "1 \<le> P div 2" "P div 2 < P" using assms by auto
  show ?thesis
    unfolding cubeFaceGrid_def
    by (simp add: cubeFaceFrames_def faceGrid_nth[OF h h] half_ratio[OF assms] cubeCorners_def
        add_def subtract_def multiplyByScalar_def del: One_nat_def)
qed

lemma bottom_pole:
  assumes "even P" "2 \<le> P"
  shows "cubeFaceGrid P (cubeFaceFrames ! 5) ! ((P div 2 - 1) * (P - 1) + (P div 2 - 1))
     = Cartesian3 0 0 (- 1)"
proof -
  have h: "1 \<le> P div 2" "P div 2 < P" using assms by auto
  show ?thesis
    unfolding cubeFaceGrid_def
    by (simp add: cubeFaceFrames_def faceGrid_nth[OF h h] half_ratio[OF assms] cubeCorners_def
        add_def subtract_def multiplyByScalar_def del: One_nat_def)
qed

lemma tangent_on_axis:
  "vertexTangent ell (Cartesian3 0 0 c) = Cartesian3 0 0 0"
  by (simp add: vertexTangent_def geodeticSurfaceNormal_def multiplyComponents_def
      normalize3_def cross_def UNIT_Z_def Let_def)

lemma binormal_on_axis:
  "vertexBinormal ell (Cartesian3 0 0 c) = Cartesian3 0 0 0"
  by (simp add: vertexBinormal_def tangent_on_axis cross_def)

lemma toEllipsoid_on_axis:
  "toEllipsoid rad (Cartesian3 0 0 c) = Cartesian3 0 0 (c / magnitude (Cartesian3 0 0 c) * z3 rad)"
  by (simp add: toEllipsoid_def normalize3_def multiplyComponents_def Let_def)

lemma faceVertexIndex_less:
  assumes "k < 6" "1 \<le> i" "i < P" "1 \<le> j" "j < P"
  shows "faceVertexIndex P k i j < length (cubePositions P)"
proof -
  have "Suc k * ((P - 1) * (P - 1)) \<le> 6 * ((P - 1) * (P - 1))"
    using assms(1) by (intro mult_le_mono1) simp
  then have "k * ((P - 1) * (P - 1)) + (P - 1) * (P - 1) \<le> 6 * ((P - 1) * (P - 1))"
    by simp
  then show ?thesis
    unfolding faceVertexIndex_def length_cubePositions
    using grid_offset_less[OF assms(2-5)] by linarith
qed

lemma passPositions_on_axis:
  assumes "i < length (cubePositions P)" "cubePositions P ! i = Cartesian3 0 0 c"
  shows "\<exists>c'. passPositions fmt ell P ! i = Cartesian3 0 0 c'"
  using assms by (simp add: passPositions_def toEllipsoid_on_axis)

lemma attributeVertex_tangent_explicit:
  assumes "0 < P" "tangent fmt" "i < length (cubePositions (nat P))"
  shows "attributeVertex tangentAttribute
           \<lparr>ellipsoid = Some ell, numberOfPartitions = Some P, vertexFormat = Some fmt\<rparr> i =
         Some (vertexTangent ell (passPositions fmt ell (nat P) ! i))"
  using attributeVertex_tangent[of "\<lparr>ellipsoid = Some ell, numberOfPartitions = Some P,
      vertexFormat = Some fmt\<rparr>" i] assms
  by (simp add: defaultValue_def)

lemma attributeVertex_binormal_explicit:
  assumes "0 < P" "binormal fmt" "i < length (cubePositions (nat P))"
  shows "attributeVertex binormalAttribute
           \<lparr>ellipsoid = Some ell, numberOfPartitions = Some P, vertexFormat = Some fmt\<rparr> i =
         Some (vertexBinormal ell (passPositions fmt ell (nat P) ! i))"
  using attributeVertex_binormal[of "\<lparr>ellipsoid = Some ell, numberOfPartitions = Some P,
      vertexFormat = Some fmt\<rparr>" i] assms
  by (simp add: defaultValue_def)

lemma axis_vertex_attributes:
  assumes "1 \<le> P" "i < length (cubePositions P)" "cubePositions P ! i = Cartesian3 0 0 c"
  shows "(tangent fmt \<longrightarrow>
            attributeVertex tangentAttribute
              \<lparr>ellipsoid = Some ell, numberOfPartitions = Some (int P),
               vertexFormat = Some fmt\<rparr> i = Some (Cartesian3 0 0 0)) \<and>
         (binormal fmt \<longrightarrow>
            attributeVertex binormalAttribute
              \<lparr>ellipsoid = Some ell, numberOfPartitions = Some (int P),
               vertexFormat = Some fmt\<rparr> i = Some (Cartesian3 0 0 0))"
proof -
  obtain c' where p: "passPositions fmt ell P ! i = Cartesian3 0 0 c'"
    using passPositions_on_axis[OF assms(2,3)] by blast
  have P: "0 < int P" "i < length (cubePositions (nat (int P)))" using assms by simp_all
  show ?thesis
    using attributeVertex_tangent_explicit[OF P(1) _ P(2), of fmt ell]
      attributeVertex_binormal_explicit[OF P(1) _ P(2), of fmt ell]
    by (simp add: p tangent_on_axis binormal_on_axis)
qed

section \<open>The positions are pairwise different; edge lists and faces\<close>

lemma concat_cubeGroups: "concat (cubeGroups P) = cubePositions P"
  by (simp add: cubeGroups_def cubePositions_def cubeEdgePositions_def cubeCorners_def)

lemma distinct_concat_keyed:
  "(\<And>k. k < length gs \<Longrightarrow> distinct (gs ! k) \<and> (\<forall>p \<in> set (gs ! k). key p = k0 + k)) \<Longrightarrow>
     distinct (concat gs)"
proof (induction gs arbitrary: k0)
  case Nil
  then show ?case by simp
next
  case (Cons g gs)
  have g: "distinct g" "\<forall>p \<in> set g. key p = k0" using Cons.prems[of 0] by simp_all
  have rest: "\<And>k. k < length gs \<Longrightarrow>
      distinct (gs ! k) \<and> (\<forall>p \<in> set (gs ! k). key p = Suc k0 + k)"
    using Cons.prems[of "Suc _"] by simp
  have d: "distinct (concat gs)" using rest by (rule Cons.IH)
  have "set g \<inter> set (concat gs) = {}"
  proof (rule ccontr)
    assume "set g \<inter> set (concat gs) \<noteq> {}"
    then obtain p where p: "p \<in> set g" "p \<in> set (concat gs)" by blast
    then obtain h where "h \<in> set gs" "p \<in> set h" by auto
    then obtain k where "k < length gs" "gs ! k = h" by (auto simp: in_set_conv_nth)
    with rest[of k] \<open>p \<in> set h\<close> have "key p = Suc k0 + k" by simp
    with g(2) p(1) show False by simp
  qed
  with g(1) d show ?case by simp
qed

lemma edge_point_regions:
  assumes "0 < t" "t < 1"
  shows "cubeRegion (add (cubeCorners ! 0) (multiplyByScalar (subtract (cubeCorners ! 1) (cubeCorners ! 0)) t)) = 8"
    "cubeRegion (add (cubeCorners ! 1) (multiplyByScalar (subtract (cubeCorners ! 2) (cubeCorners ! 1)) t)) = 9"
    "cubeRegion (add (cubeCorners ! 2) (multiplyByScalar (subtract (cubeCorners ! 3) (cubeCorners ! 2)) t)) = 10"
    "cubeRegion (add (cubeCorners ! 3) (multiplyByScalar (subtract (cubeCorners ! 0) (cubeCorners ! 3)) t)) = 11"
    "cubeRegion (add (cubeCorners ! 4) (multiplyByScalar (subtract (cubeCorners ! 5) (cubeCorners ! 4)) t)) = 12"
    "cubeRegion (add (cubeCorners ! 5) (multiplyByScalar (subtract (cubeCorners ! 6) (cubeCorners ! 5)) t)) = 13"
    "cubeRegion (add (cubeCorners ! 6) (multiplyByScalar (subtract (cubeCorners ! 7) (cubeCorners ! 6)) t)) = 14"
    "cubeRegion (add (cubeCorners ! 7) (multiplyByScalar (subtract (cubeCorners ! 4) (cubeCorners ! 7)) t)) = 15"
    "cubeRegion (add (cubeCorners ! 0) (multiplyByScalar (subtract (cubeCorners ! 4) (cubeCorners ! 0)) t)) = 16"
    "cubeRegion (add (cubeCorners ! 1) (multiplyByScalar (subtract (cubeCorners ! 5) (cubeCorners ! 1)) t)) = 17"
    "cubeRegion (add (cubeCorners ! 2) (multiplyByScalar (subtract (cubeCorners ! 6) (cubeCorners ! 2)) t)) = 18"
    "cubeRegion (add (cubeCorners ! 3) (multiplyByScalar (subtract (cubeCorners ! 7) (cubeCorners ! 3)) t)) = 19"
  using assms
  by (simp_all add: cubeRegion_def cubeCorners_def add_def subtract_def multiplyByScalar_def Let_def)

lemma face_point_regions:
  assumes "0 < s" "s < 1" "0 < t" "t < 1"
  shows "cubeRegion (add (add (cubeCorners ! 0) (multiplyByScalar (subtract (cubeCorners ! 1) (cubeCorners ! 0)) s))
            (multiplyByScalar (subtract (cubeCorners ! 4) (cubeCorners ! 0)) t)) = 20"
    "cubeRegion (add (add (cubeCorners ! 1) (multiplyByScalar (subtract (cubeCorners ! 2) (cubeCorners ! 1)) s))
            (multiplyByScalar (subtract (cubeCorners ! 5) (cubeCorners ! 1)) t)) = 21"
    "cubeRegion (add (add (cubeCorners ! 2) (multiplyByScalar (subtract (cubeCorners ! 3) (cubeCorners ! 2)) s))
            (multiplyByScalar (subtract (cubeCorners ! 6) (cubeCorners ! 2)) t)) = 22"
    "cubeRegion (add (add (cubeCorners ! 3) (multiplyByScalar (subtract (cubeCorners ! 0) (cubeCorners ! 3)) s))
            (multiplyByScalar (subtract (cubeCorners ! 7) (cubeCorners ! 3)) t)) = 23"
    "cubeRegion (add (add (cubeCorners ! 4) (multiplyByScalar (subtract (cubeCorners ! 5) (cubeCorners ! 4)) s))
            (multiplyByScalar (subtract (cubeCorners ! 7) (cubeCorners ! 4)) t)) = 24"
    "cubeRegion (add (add (cubeCorners ! 1) (multiplyByScalar (subtract (cubeCorners ! 0) (cubeCorners ! 1)) s))
            (multiplyByScalar (subtract (cubeCorners ! 2) (cubeCorners ! 1)) t)) = 25"
  using assms
  by (auto simp: cubeRegion_def cubeCorners_def add_def subtract_def multiplyByScalar_def Let_def)

lemma corner_regions: "k < 8 \<Longrightarrow> cubeRegion (cubeCorners ! k) = k"
proof -
  assume "k < 8"
  then consider "k = 0" | "k = 1" | "k = 2" | "k = 3" | "k = 4" | "k = 5" | "k = 6" | "k = 7"
    by linarith
  then show ?thesis
    by cases (simp_all add: cubeRegion_def cubeCorners_def)
qed

lemma ratio_in_unit: "1 \<le> i \<Longrightarrow> i < P \<Longrightarrow> 0 < real i / real P \<and> real i / real P < 1"
  by simp

lemma ratio_inj: "i < P \<Longrightarrow> real i / real P = real i' / real P \<Longrightarrow> i = i'"
  by simp

lemma edge_group_region:
  assumes "\<And>t. 0 < t \<Longrightarrow> t < 1 \<Longrightarrow>
      key (add origin (multiplyByScalar (subtract dest origin) t)) = k"
  shows "\<forall>p \<in> set (edgePoints origin dest P). key p = k"
  using assms ratio_in_unit by (auto simp: edgePoints_def)

lemma face_group_region:
  assumes "\<And>s t. 0 < s \<Longrightarrow> s < 1 \<Longrightarrow> 0 < t \<Longrightarrow> t < 1 \<Longrightarrow>
      key (add (add origin (multiplyByScalar x s)) (multiplyByScalar y t)) = k"
  shows "\<forall>p \<in> set (faceGrid P origin x y). key p = k"
  using assms ratio_in_unit by (auto simp: faceGrid_def gridRow_def)

lemma distinct_edgePoints:
  assumes "origin \<noteq> dest"
  shows "distinct (edgePoints origin dest P)"
proof -
  let ?f = "\<lambda>i. add origin (multiplyByScalar (subtract dest origin) (real i / real P))"
  have "inj_on ?f (set [1..<P])"
  proof (rule inj_onI)
    fix i i' assume i: "i \<in> set [1..<P]" "i' \<in> set [1..<P]" and e: "?f i = ?f i'"
    have d: "x3 dest - x3 origin \<noteq> 0 \<or> y3 dest - y3 origin \<noteq> 0 \<or> z3 dest - z3 origin \<noteq> 0"
      using assms by (cases origin; cases dest) auto
    from e have "(x3 dest - x3 origin) * (real i / real P) = (x3 dest - x3 origin) * (real i' / real P)"
      "(y3 dest - y3 origin) * (real i / real P) = (y3 dest - y3 origin) * (real i' / real P)"
      "(z3 dest - z3 origin) * (real i / real P) = (z3 dest - z3 origin) * (real i' / real P)"
      by (simp_all add: add_def multiplyByScalar_def subtract_def)
    with d have "real i / real P = real i' / real P" by auto
    then show "i = i'" using i by (intro ratio_inj[of i P i']) simp_all
  qed
  then show ?thesis
    unfolding edgePoints_def by (simp add: distinct_map)
qed

lemma grid_as_product:
  "concat (map (\<lambda>j. map (\<lambda>i. f i j) ys) xs) = map (\<lambda>(j, i). f i j) (List.product xs ys)"
  by (induction xs) simp_all

lemma distinct_faceGrid:
  assumes "\<And>s t s' t' :: real.
      add (add origin (multiplyByScalar x s)) (multiplyByScalar y t) =
      add (add origin (multiplyByScalar x s')) (multiplyByScalar y t') \<Longrightarrow> s = s' \<and> t = t'"
  shows "distinct (faceGrid P origin x y)"
proof -
  let ?f = "\<lambda>i j. add (add origin (multiplyByScalar x (real i / real P)))
                      (multiplyByScalar y (real j / real P))"
  have e: "faceGrid P origin x y = map (\<lambda>(j, i). ?f i j) (List.product [1..<P] [1..<P])"
    unfolding faceGrid_def gridRow_def by (rule grid_as_product)
  have "inj_on (\<lambda>(j, i). ?f i j) (set (List.product [1..<P] [1..<P]))"
  proof (rule inj_onI)
    fix a b assume a: "a \<in> set (List.product [1..<P] [1..<P])"
      and b: "b \<in> set (List.product [1..<P] [1..<P])"
      and e: "(case a of (j, i) \<Rightarrow> ?f i j) = (case b of (j, i) \<Rightarrow> ?f i j)"
    obtain j i where ab: "a = (j, i)" by (cases a)
    obtain j' i' where bb: "b = (j', i')" by (cases b)
    from e have "real i / real P = real i' / real P \<and> real j / real P = real j' / real P"
      unfolding ab bb by (intro assms) simp
    then show "a = b"
      using a b unfolding ab bb by (auto dest: ratio_inj)
  qed
  then show ?thesis
    unfolding e by (simp add: distinct_map distinct_product)
qed

lemma corners_differ:
  "cubeCorners ! 0 \<noteq> cubeCorners ! 1" "cubeCorners ! 1 \<noteq> cubeCorners ! 2"
  "cubeCorners ! 2 \<noteq> cubeCorners ! 3" "cubeCorners ! 3 \<noteq> cubeCorners ! 0"
  "cubeCorners ! 4 \<noteq> cubeCorners ! 5" "cubeCorners ! 5 \<noteq> cubeCorners ! 6"
  "cubeCorners ! 6 \<noteq> cubeCorners ! 7" "cubeCorners ! 7 \<noteq> cubeCorners ! 4"
  "cubeCorners ! 0 \<noteq> cubeCorners ! 4" "cubeCorners ! 1 \<noteq> cubeCorners ! 5"
  "cubeCorners ! 2 \<noteq> cubeCorners ! 6" "cubeCorners ! 3 \<noteq> cubeCorners ! 7"
  by (simp_all add: cubeCorners_def)

lemma face_frames_independent:
  fixes s t s' t' :: real
  shows
    "add (add (cubeCorners ! 0) (multiplyByScalar (subtract (cubeCorners ! 1) (cubeCorners ! 0)) s))
         (multiplyByScalar (subtract (cubeCorners ! 4) (cubeCorners ! 0)) t) =
     add (add (cubeCorners ! 0) (multiplyByScalar (subtract (cubeCorners ! 1) (cubeCorners ! 0)) s'))
         (multiplyByScalar (subtract (cubeCorners ! 4) (cubeCorners ! 0)) t') \<Longrightarrow> s = s' \<and> t = t'"
    "add (add (cubeCorners ! 1) (multiplyByScalar (subtract (cubeCorners ! 2) (cubeCorners ! 1)) s))
         (multiplyByScalar (subtract (cubeCorners ! 5) (cubeCorners ! 1)) t) =
     add (add (cubeCorners ! 1) (multiplyByScalar (subtract (cubeCorners ! 2) (cubeCorners ! 1)) s'))
         (multiplyByScalar (subtract (cubeCorners ! 5) (cubeCorners ! 1)) t') \<Longrightarrow> s = s' \<and> t = t'"
    "add (add (cubeCorners ! 2) (multiplyByScalar (subtract (cubeCorners ! 3) (cubeCorners ! 2)) s))
         (multiplyByScalar (subtract (cubeCorners ! 6) (cubeCorners ! 2)) t) =
     add (add (cubeCorners ! 2) (multiplyByScalar (subtract (cubeCorners ! 3) (cubeCorners ! 2)) s'))
         (multiplyByScalar (subtract (cubeCorners ! 6) (cubeCorners ! 2)) t') \<Longrightarrow> s = s' \<and> t = t'"
    "add (add (cubeCorners ! 3) (multiplyByScalar (subtract (cubeCorners ! 0) (cubeCorners ! 3)) s))
         (multiplyByScalar (subtract (cubeCorners ! 7) (cubeCorners ! 3)) t) =
     add (add (cubeCorners ! 3) (multiplyByScalar (subtract (cubeCorners ! 0) (cubeCorners ! 3)) s'))
         (multiplyByScalar (subtract (cubeCorners ! 7) (cubeCorners ! 3)) t') \<Longrightarrow> s = s' \<and> t = t'"
    "add (add (cubeCorners ! 4) (multiplyByScalar (subtract (cubeCorners ! 5) (cubeCorners ! 4)) s))
         (multiplyByScalar (subtract (cubeCorners ! 7) (cubeCorners ! 4)) t) =
     add (add (cubeCorners ! 4) (multiplyByScalar (subtract (cubeCorners ! 5) (cubeCorners ! 4)) s'))
         (multiplyByScalar (subtract (cubeCorners ! 7) (cubeCorners ! 4)) t') \<Longrightarrow> s = s' \<and> t = t'"
    "add (add (cubeCorners ! 1) (multiplyByScalar (subtract (cubeCorners ! 0) (cubeCorners ! 1)) s))
         (multiplyByScalar (subtract (cubeCorners ! 2) (cubeCorners ! 1)) t) =
     add (add (cubeCorners ! 1) (multiplyByScalar (subtract (cubeCorners ! 0) (cubeCorners ! 1)) s'))
         (multiplyByScalar (subtract (cubeCorners ! 2) (cubeCorners ! 1)) t') \<Longrightarrow> s = s' \<and> t = t'"
  by (simp_all add: cubeCorners_def add_def subtract_def multiplyByScalar_def)

lemma cubeGroups_list:
  "cubeGroups P =
     [[cubeCorners ! 0], [cubeCorners ! 1], [cubeCorners ! 2], [cubeCorners ! 3],
      [cubeCorners ! 4], [cubeCorners ! 5], [cubeCorners ! 6], [cubeCorners ! 7],
      edgePoints (cubeCorners ! 0) (cubeCorners ! 1) P,
      edgePoints (cubeCorners ! 1) (cubeCorners ! 2) P,
      edgePoints (cubeCorners ! 2) (cubeCorners ! 3) P,
      edgePoints (cubeCorners ! 3) (cubeCorners ! 0) P,
      edgePoints (cubeCorners ! 4) (cubeCorners ! 5) P,
      edgePoints (cubeCorners ! 5) (cubeCorners ! 6) P,
      edgePoints (cubeCorners ! 6) (cubeCorners ! 7) P,
      edgePoints (cubeCorners ! 7) (cubeCorners ! 4) P,
      edgePoints (cubeCorners ! 0) (cubeCorners ! 4) P,
      edgePoints (cubeCorners ! 1) (cubeCorners ! 5) P,
      edgePoints (cubeCorners ! 2) (cubeCorners ! 6) P,
      edgePoints (cubeCorners ! 3) (cubeCorners ! 7) P,
      faceGrid P (cubeCorners ! 0) (subtract (cubeCorners ! 1) (cubeCorners ! 0)) (subtract (cubeCorners ! 4) (cubeCorners ! 0)),
      faceGrid P (cubeCorners ! 1) (subtract (cubeCorners ! 2) (cubeCorners ! 1)) (subtract (cubeCorners ! 5) (cubeCorners ! 1)),
      faceGrid P (cubeCorners ! 2) (subtract (cubeCorners ! 3) (cubeCorners ! 2)) (subtract (cubeCorners ! 6) (cubeCorners ! 2)),
      faceGrid P (cubeCorners ! 3) (subtract (cubeCorners ! 0) (cubeCorners ! 3)) (subtract (cubeCorners ! 7) (cubeCorners ! 3)),
      faceGrid P (cubeCorners ! 4) (subtract (cubeCorners ! 5) (cubeCorners ! 4)) (subtract (cubeCorners ! 7) (cubeCorners ! 4)),
      faceGrid P (cubeCorners ! 1) (subtract (cubeCorners ! 0) (cubeCorners ! 1)) (subtract (cubeCorners ! 2) (cubeCorners ! 1))]"
  by (simp add: cubeGroups_def cubeEdgeEnds_def cubeFaceFrames_def cubeFaceGrid_def)
     (simp add: cubeCorners_def)

lemma cubeGroups_keyed:
  assumes "k < length (cubeGroups P)"
  shows "distinct (cubeGroups P ! k) \<and> (\<forall>p \<in> set (cubeGroups P ! k). cubeRegion p = 0 + k)"
proof -
  have "k < 26" using assms by (simp add: cubeGroups_list)
  then consider "k = 0" | "k = 1" | "k = 2" | "k = 3" | "k = 4" | "k = 5" | "k = 6" | "k = 7" | "k = 8" | "k = 9" | "k = 10" | "k = 11" | "k = 12" | "k = 13" | "k = 14" | "k = 15" | "k = 16" | "k = 17" | "k = 18" | "k = 19" | "k = 20" | "k = 21" | "k = 22" | "k = 23" | "k = 24" | "k = 25"
    by atomize_elim arith
  then show ?thesis
  proof cases
    case 1
    then show ?thesis by (simp add: cubeGroups_list corner_regions)
  next
    case 2
    then show ?thesis by (simp add: cubeGroups_list corner_regions)
  next
    case 3
    then show ?thesis by (simp add: cubeGroups_list corner_regions)
  next
    case 4
    then show ?thesis by (simp add: cubeGroups_list corner_regions)
  next
    case 5
    then show ?thesis by (simp add: cubeGroups_list corner_regions)
  next
    case 6
    then show ?thesis by (simp add: cubeGroups_list corner_regions)
  next
    case 7
    then show ?thesis by (simp add: cubeGroups_list corner_regions)
  next
    case 8
    then show ?thesis by (simp add: cubeGroups_list corner_regions)
  next
    case 9
    then show ?thesis
      using edge_group_region[of cubeRegion, OF edge_point_regions(1)] distinct_edgePoints[OF corners_differ(1)]
      by (simp add: cubeGroups_list)
  next
    case 10
    then show ?thesis
      using edge_group_region[of cubeRegion, OF edge_point_regions(2)] distinct_edgePoints[OF corners_differ(2)]
      by (simp add: cubeGroups_list)
  next
    case 11
    then show ?thesis
      using edge_group_region[of cubeRegion, OF edge_point_regions(3)] distinct_edgePoints[OF corners_differ(3)]
      by (simp add: cubeGroups_list)
  next
    case 12
    then show ?thesis
      using edge_group_region[of cubeRegion, OF edge_point_regions(4)] distinct_edgePoints[OF corners_differ(4)]
      by (simp add: cubeGroups_list)
  next
    case 13
    then show ?thesis
      using edge_group_region[of cubeRegion, OF edge_point_regions(5)] distinct_edgePoints[OF corners_differ(5)]
      by (simp add: cubeGroups_list)
  next
    case 14
    then show ?thesis
      using edge_group_region[of cubeRegion, OF edge_point_regions(6)] distinct_edgePoints[OF corners_differ(6)]
      by (simp add: cubeGroups_list)
  next
    case 15
    then show ?thesis
      using edge_group_region[of cubeRegion, OF edge_point_regions(7)] distinct_edgePoints[OF corners_differ(7)]
      by (simp add: cubeGroups_list)
  next
    case 16
    then show ?thesis
      using edge_group_region[of cubeRegion, OF edge_point_regions(8)] distinct_edgePoints[OF corners_differ(8)]
      by (simp add: cubeGroups_list)
  next
    case 17
    then show ?thesis
      using edge_group_region[of cubeRegion, OF edge_point_regions(9)] distinct_edgePoints[OF corners_differ(9)]
      by (simp add: cubeGroups_list)
  next
    case 18
    then show ?thesis
      using edge_group_region[of cubeRegion, OF edge_point_regions(10)] distinct_edgePoints[OF corners_differ(10)]
      by (simp add: cubeGroups_list)
  next
    case 19
    then show ?thesis
      using edge_group_region[of cubeRegion, OF edge_point_regions(11)] distinct_edgePoints[OF corners_differ(11)]
      by (simp add: cubeGroups_list)
  next
    case 20
    then show ?thesis
      using edge_group_region[of cubeRegion, OF edge_point_regions(12)] distinct_edgePoints[OF corners_differ(12)]
      by (simp add: cubeGroups_list)
  next
    case 21
    then show ?thesis
      using face_group_region[of cubeRegion, OF face_point_regions(1)] distinct_faceGrid[OF face_frames_independent(1)]
      by (simp add: cubeGroups_list)
  next
    case 22
    then show ?thesis
      using face_group_region[of cubeRegion, OF face_point_regions(2)] distinct_faceGrid[OF face_frames_independent(2)]
      by (simp add: cubeGroups_list)
  next
    case 23
    then show ?thesis
      using face_group_region[of cubeRegion, OF face_point_regions(3)] distinct_faceGrid[OF face_frames_independent(3)]
      by (simp add: cubeGroups_list)
  next
    case 24
    then show ?thesis
      using face_group_region[of cubeRegion, OF face_point_regions(4)] distinct_faceGrid[OF face_frames_independent(4)]
      by (simp add: cubeGroups_list)
  next
    case 25
    then show ?thesis
      using face_group_region[of cubeRegion, OF face_point_regions(5)] distinct_faceGrid[OF face_frames_independent(5)]
      by (simp add: cubeGroups_list)
  next
    case 26
    then show ?thesis
      using face_group_region[of cubeRegion, OF face_point_regions(6)] distinct_faceGrid[OF face_frames_independent(6)]
      by (simp add: cubeGroups_list)
  qed
qed

lemma distinct_cubePositions: "distinct (cubePositions P)"
  unfolding concat_cubeGroups[symmetric]
  using cubeGroups_keyed by (rule distinct_concat_keyed)

lemma edge_eq_iff:
  "edgeIndexList a b P n = edgeIndexList a' b' P n' \<longleftrightarrow>
     a = a' \<and> b = b' \<and> [n ..< n + (P - 1)] = [n' ..< n' + (P - 1)]"
  by (auto simp: edgeIndexList_def)

lemma rev_edge_eq:
  "rev (edgeIndexList a b P n) = edgeIndexList a' b' P n' \<Longrightarrow> b = a' \<and> a = b'"
  by (auto simp: edgeIndexList_def)

lemma rev_edge_neq:
  "b \<noteq> a' \<or> a \<noteq> b' \<Longrightarrow> rev (edgeIndexList a b P n) \<noteq> edgeIndexList a' b' P n'"
  "b \<noteq> a' \<or> a \<noteq> b' \<Longrightarrow> edgeIndexList a' b' P n' \<noteq> rev (edgeIndexList a b P n)"
  using rev_edge_eq by metis+

lemma edge_neq:
  "a \<noteq> a' \<or> b \<noteq> b' \<Longrightarrow> edgeIndexList a b P n \<noteq> edgeIndexList a' b' P n'"
  by (auto simp: edge_eq_iff)

lemma rev_rev_edge_neq:
  "a \<noteq> a' \<or> b \<noteq> b' \<Longrightarrow> rev (edgeIndexList a b P n) \<noteq> rev (edgeIndexList a' b' P n')"
  by (simp add: edge_neq)

lemma each_edge_bounds_two_faces:
  "list_all (\<lambda>e. length (filter (sharesEdge e) (cubeFaces (cubeEdgeLists P))) = 2)
     (edgeLists (cubeEdgeLists P))"
  by (simp add: edgeLists_def cubeFaces_def cubeEdgeLists_def sharesEdge_def
      edge_neq rev_edge_neq rev_rev_edge_neq)

lemma js_get_rev_edge_last: "1 \<le> P \<Longrightarrow> js_get (rev (edgeIndexList a b P n)) P = Some a"
  by (simp add: js_get_def edgeIndexList_def nth_append)

lemma js_get_nth: "m < length l \<Longrightarrow> js_get l m = l ! m"
  by (simp add: js_get_def)

lemma face_boundary:
  assumes "1 \<le> P"
    and "length l = Suc P" "length r = Suc P"
    and "js_get b 0 = js_get l 0" "js_get t 0 = js_get l P"
    and "js_get b P = js_get r 0" "js_get t P = js_get r P"
  shows "map (\<lambda>m. js_get (faceRow l b r t P n m) 0) [0..<Suc P] = l"
    and "map (\<lambda>m. js_get (faceRow l b r t P n m) P) [0..<Suc P] = r"
proof -
  show "map (\<lambda>m. js_get (faceRow l b r t P n m) 0) [0..<Suc P] = l"
  proof (rule nth_equalityI)
    show "length (map (\<lambda>m. js_get (faceRow l b r t P n m) 0) [0..<Suc P]) = length l"
      using assms(2) by simp
  next
    fix m assume "m < length (map (\<lambda>m. js_get (faceRow l b r t P n m) 0) [0..<Suc P])"
    then have m: "m < Suc P" by simp
    have "js_get (faceRow l b r t P n m) 0 = js_get l m"
    proof (cases "m = 0 \<or> m = P")
      case True
      then show ?thesis using assms(4,5) by (auto simp: faceRow_def)
    next
      case False
      then show ?thesis by (simp add: faceRow_def js_get_def)
    qed
    then show "map (\<lambda>m. js_get (faceRow l b r t P n m) 0) [0..<Suc P] ! m = l ! m"
      using m assms(2) by (simp add: js_get_nth nth_map_upt del: upt_Suc)
  qed
  show "map (\<lambda>m. js_get (faceRow l b r t P n m) P) [0..<Suc P] = r"
  proof (rule nth_equalityI)
    show "length (map (\<lambda>m. js_get (faceRow l b r t P n m) P) [0..<Suc P]) = length r"
      using assms(3) by simp
  next
    fix m assume "m < length (map (\<lambda>m. js_get (faceRow l b r t P n m) P) [0..<Suc P])"
    then have m: "m < Suc P" by simp
    have "js_get (faceRow l b r t P n m) P = js_get r m"
    proof (cases "m = 0 \<or> m = P")
      case True
      then show ?thesis using assms(6,7) by (auto simp: faceRow_def)
    next
      case False
      then show ?thesis using assms(1) by (simp add: faceRow_def js_get_def nth_append nth_Cons')
    qed
    then show "map (\<lambda>m. js_get (faceRow l b r t P n m) P) [0..<Suc P] ! m = r ! m"
      using m assms(3) by (simp add: js_get_nth nth_map_upt del: upt_Suc)
  qed
qed

lemma cube_face_boundaries:
  assumes "1 \<le> P" "k < 6"
  shows "case cubeFaces (cubeEdgeLists P) ! k of
           (l, b, r, t) \<Rightarrow>
              faceRow l b r t P n 0 = b \<and> faceRow l b r t P n P = t \<and>
              map (\<lambda>m. js_get (faceRow l b r t P n m) 0) [0..<Suc P] = l \<and>
              map (\<lambda>m. js_get (faceRow l b r t P n m) P) [0..<Suc P] = r"
proof -
  have P0: "P \<noteq> 0" using assms(1) by simp
  have len: "\<And>a b n. length (edgeIndexList a b P n) = Suc P"
    using assms(1) by (simp add: length_edgeIndexList)
  note ends = js_get_edge_first js_get_edge_last[OF assms(1)] js_get_rev_edge_first
    js_get_rev_edge_last[OF assms(1)]
  from assms(2) consider "k = 0" | "k = 1" | "k = 2" | "k = 3" | "k = 4" | "k = 5"
    by atomize_elim arith
  then show ?thesis
  proof cases
    case 1
    then show ?thesis
      using P0 by (simp add: cubeFaces_def cubeEdgeLists_def faceRow_def[of _ _ _ _ _ _ 0]
          faceRow_def[of _ _ _ _ P _ P] face_boundary[OF assms(1)] len ends del: upt_Suc)
  next
    case 2
    then show ?thesis
      using P0 by (simp add: cubeFaces_def cubeEdgeLists_def faceRow_def[of _ _ _ _ _ _ 0]
          faceRow_def[of _ _ _ _ P _ P] face_boundary[OF assms(1)] len ends del: upt_Suc)
  next
    case 3
    then show ?thesis
      using P0 by (simp add: cubeFaces_def cubeEdgeLists_def faceRow_def[of _ _ _ _ _ _ 0]
          faceRow_def[of _ _ _ _ P _ P] face_boundary[OF assms(1)] len ends del: upt_Suc)
  next
    case 4
    then show ?thesis
      using P0 by (simp add: cubeFaces_def cubeEdgeLists_def faceRow_def[of _ _ _ _ _ _ 0]
          faceRow_def[of _ _ _ _ P _ P] face_boundary[OF assms(1)] len ends del: upt_Suc)
  next
    case 5
    then show ?thesis
      using P0 by (simp add: cubeFaces_def cubeEdgeLists_def faceRow_def[of _ _ _ _ _ _ 0]
          faceRow_def[of _ _ _ _ P _ P] face_boundary[OF assms(1)] len ends del: upt_Suc)
  next
    case 6
    then show ?thesis
      using P0 by (simp add: cubeFaces_def cubeEdgeLists_def faceRow_def[of _ _ _ _ _ _ 0]
          faceRow_def[of _ _ _ _ P _ P] face_boundary[OF assms(1)] len ends del: upt_Suc)
  qed
qed

lemma edgeLists_blocks:
  "edgeLists (cubeEdgeLists P) =
     map (\<lambda>k. edgeIndexList (fst (cubeEdgeEnds ! k)) (snd (cubeEdgeEnds ! k)) P (8 + k * (P - 1)))
       [0..<12]"
proof -
  have "[0..<12] = [0, 1, 2, 3, 4, 5, 6, 7, 8, 9, 10, 11 :: nat]" by (simp add: upt_rec)
  then show ?thesis
    by (simp add: edgeLists_def cubeEdgeLists_def cubeEdgeEnds_def)
qed

lemma cube_edges_once: "distinct (map (\<lambda>(a, b). {a, b}) cubeEdgeEnds)"
  by (simp add: cubeEdgeEnds_def doubleton_eq_iff)

section \<open>Properties of the construction\<close>

subsection \<open>Sizes of the position list and of the index buffer\<close>

text \<open>
  C1. For every partition count \<open>P \<ge> 1\<close> the construction succeeds, the position list
  has \<open>8 + 12 (P - 1) + 6 (P - 1)\<^sup>2\<close> entries and the index buffer has
  \<open>36 P\<^sup>2\<close> entries.
\<close>

theorem mesh_sizes:
  assumes "1 \<le> P"
  shows "\<exists>positions indices. cubeMesh P = Inr (positions, indices) \<and>
           length positions = 8 + 12 * (P - 1) + 6 * (P - 1)\<^sup>2 \<and>
           length indices = 36 * P\<^sup>2"
  using cubeMesh_closed[OF assms]
  by (simp add: length_cubePositions length_cubeIndices power2_eq_square)

theorem mesh_sizes_witness:
  "(1::nat) \<le> 3 \<and>
   (\<exists>positions indices. cubeMesh 3 = Inr (positions, indices) \<and>
      length positions = 56 \<and> length indices = 324)"
  using mesh_sizes[of 3] by simp

subsection \<open>The position flag and the other attributes\<close>

text \<open>
  C2 at radii \<open>(2, 1, 1)\<close> with one partition. The position pass overwrites every entry
  of the position list by its projection onto the ellipsoid, and the texture and normal
  passes read the list after it. With the position attribute requested, the normal of
  vertex 0 is \<open>(-1/\<surd>5, 0, -2/\<surd>5)\<close> and its second texture coordinate is \<open>1/4\<close>;
  without it they are \<open>(-1/\<surd>17, 0, -4/\<surd>17)\<close> and \<open>arcsin (-2/\<surd>5) / \<pi> + 1/2\<close>.
\<close>

theorem position_flag_changes_normals_and_st:
  "attributeVertex normalAttribute
     \<lparr>ellipsoid = Some \<lparr>radii = Cartesian3 2 1 1\<rparr>, numberOfPartitions = Some 1,
      vertexFormat = Some \<lparr>position = True, normal = True, st = True, binormal = False,
                            tangent = False\<rparr>\<rparr> 0
     = Some (Cartesian3 (- (1 / sqrt 5)) 0 (- (2 / sqrt 5))) \<and>
   attributeVertex normalAttribute
     \<lparr>ellipsoid = Some \<lparr>radii = Cartesian3 2 1 1\<rparr>, numberOfPartitions = Some 1,
      vertexFormat = Some \<lparr>position = False, normal = True, st = True, binormal = False,
                            tangent = False\<rparr>\<rparr> 0
     = Some (Cartesian3 (- (1 / sqrt 17)) 0 (- (4 / sqrt 17))) \<and>
   Cartesian3 (- (1 / sqrt 5)) 0 (- (2 / sqrt 5)) \<noteq> Cartesian3 (- (1 / sqrt 17)) 0 (- (4 / sqrt 17)) \<and>
   attributeValue stAttribute
     \<lparr>ellipsoid = Some \<lparr>radii = Cartesian3 2 1 1\<rparr>, numberOfPartitions = Some 1,
      vertexFormat = Some \<lparr>position = True, normal = True, st = True, binormal = False,
                            tangent = False\<rparr>\<rparr> 1
     = Some (1 / 4) \<and>
   attributeValue stAttribute
     \<lparr>ellipsoid = Some \<lparr>radii = Cartesian3 2 1 1\<rparr>, numberOfPartitions = Some 1,
      vertexFormat = Some \<lparr>position = False, normal = True, st = True, binormal = False,
                            tangent = False\<rparr>\<rparr> 1
     = Some (arcsin (- (2 / sqrt 5)) / pi + 1 / 2) \<and>
   arcsin (- (2 / sqrt 5)) / pi + 1 / 2 \<noteq> 1 / 4"
proof -
  let ?fw = "\<lparr>position = True, normal = True, st = True, binormal = False, tangent = False\<rparr>"
  let ?fn = "\<lparr>position = False, normal = True, st = True, binormal = False, tangent = False\<rparr>"
  let ?e = "\<lparr>radii = Cartesian3 2 1 1\<rparr>"
  have l: "0 < length (cubePositions (nat 1))"
    by (simp add: length_cubePositions)
  have pw: "passPositions ?fw ?e (nat 1) ! 0 = Cartesian3 (- sqrt 2) 0 (- (1 / sqrt 2))"
    using projected_corner
    by (simp add: passPositions_def cubePositions_1[unfolded One_nat_def] getRadii_def
        cubeCorners_def)
  have pn: "passPositions ?fn ?e (nat 1) ! 0 = Cartesian3 (- 1) 0 (- 1)"
    by (simp add: passPositions_def cubePositions_1[unfolded One_nat_def] cubeCorners_def)
  have a: "attributeVertex normalAttribute
      \<lparr>ellipsoid = Some ?e, numberOfPartitions = Some 1, vertexFormat = Some ?fw\<rparr> 0 =
      Some (Cartesian3 (- (1 / sqrt 5)) 0 (- (2 / sqrt 5)))"
    using attributeVertex_normal_explicit[of 1 ?fw 0 ?e, OF _ _ l] by (simp only: pw normal_with_position) simp
  have b: "attributeVertex normalAttribute
      \<lparr>ellipsoid = Some ?e, numberOfPartitions = Some 1, vertexFormat = Some ?fn\<rparr> 0 =
      Some (Cartesian3 (- (1 / sqrt 17)) 0 (- (4 / sqrt 17)))"
    using attributeVertex_normal_explicit[of 1 ?fn 0 ?e, OF _ _ l] by (simp only: pn normal_without_position) simp
  have c: "Cartesian3 (- (1 / sqrt 5)) 0 (- (2 / sqrt 5)) \<noteq>
      Cartesian3 (- (1 / sqrt 17)) 0 (- (4 / sqrt 17))"
    by simp
  have d: "attributeValue stAttribute
      \<lparr>ellipsoid = Some ?e, numberOfPartitions = Some 1, vertexFormat = Some ?fw\<rparr> 1 =
      Some (1 / 4)"
    using attributeValue_st_explicit[of 1 ?fw 0 1 ?e, OF _ _ l] by (simp only: pw st_with_position) simp
  have e: "attributeValue stAttribute
      \<lparr>ellipsoid = Some ?e, numberOfPartitions = Some 1, vertexFormat = Some ?fn\<rparr> 1 =
      Some (arcsin (- (2 / sqrt 5)) / pi + 1 / 2)"
    using attributeValue_st_explicit[of 1 ?fn 0 1 ?e, OF _ _ l] by (simp only: pn st_without_position) simp
  show ?thesis using a b c d e st_values_differ by blast
qed

subsection \<open>Validation of the arguments\<close>

text \<open>
  C3, as the code has it. The constructor raises its DeveloperError exactly when the
  partition count (32 when absent) is not positive, before any array exists; for a
  positive count it returns a geometry whatever the radii are, since it never inspects
  them.
\<close>

theorem partitions_validated:
  "(defaultValue (numberOfPartitions options) 32 \<le> 0 \<longrightarrow>
      EllipsoidGeometry options = Inl DeveloperError) \<and>
   (0 < defaultValue (numberOfPartitions options) 32 \<longrightarrow>
      \<not> isl (EllipsoidGeometry options))"
proof (intro conjI impI)
  assume "defaultValue (numberOfPartitions options) 32 \<le> 0"
  then show "EllipsoidGeometry options = Inl DeveloperError"
    by (simp add: EllipsoidGeometry_def Let_def)
next
  assume a: "0 < defaultValue (numberOfPartitions options) 32"
  then have "1 \<le> nat (defaultValue (numberOfPartitions options) 32)" by simp
  from cubeMesh_closed[OF this] a
  show "\<not> isl (EllipsoidGeometry options)"
    by (simp add: EllipsoidGeometry_def Let_def andThen_Inr)
qed

theorem partitions_validated_witness:
  "EllipsoidGeometry \<lparr>ellipsoid = None, numberOfPartitions = Some 0, vertexFormat = None\<rparr>
     = Inl DeveloperError \<and>
   \<not> isl (EllipsoidGeometry \<lparr>ellipsoid = None, numberOfPartitions = Some 2,
                               vertexFormat = None\<rparr>)"
  using partitions_validated[of "\<lparr>ellipsoid = None, numberOfPartitions = Some 0,
                                   vertexFormat = None\<rparr>"]
    partitions_validated[of "\<lparr>ellipsoid = None, numberOfPartitions = Some 2,
                               vertexFormat = None\<rparr>"]
  by (simp add: defaultValue_def)

text \<open>A radius that is not positive does not make the construction fail: with radii
  \<open>(0, 1, 1)\<close>, one partition and the position-only format a geometry is returned.\<close>

theorem zero_radius_accepted:
  "\<not> isl (EllipsoidGeometry
            \<lparr>ellipsoid = Some \<lparr>radii = Cartesian3 0 1 1\<rparr>,
             numberOfPartitions = Some 1,
             vertexFormat = Some POSITION_ONLY\<rparr>)"
  using cubeMesh_closed[of 1]
  by (simp add: EllipsoidGeometry_def Let_def andThen_Inr defaultValue_def)

subsection \<open>Normal, tangent and binormal\<close>

text \<open>
  C4, as the code has it. When the normal, the tangent or the binormal is requested, then
  for every vertex the emitted tangent is the cross product of the up axis and the
  geodetic normal, as it comes and without normalisation, and the emitted binormal is the
  cross product of the normal and that tangent; the three share one normal, computed from
  the position the pass reads.
\<close>

theorem tangent_is_cross_product:
  assumes "0 < defaultValue (numberOfPartitions options) 32"
    and "i < length (cubePositions (nat (defaultValue (numberOfPartitions options) 32)))"
  shows
    "(let ell = defaultValue (ellipsoid options) UNIT_SPHERE;
          fmt = defaultValue (vertexFormat options) DEFAULT;
          p = passPositions fmt ell (nat (defaultValue (numberOfPartitions options) 32)) ! i;
          n = geodeticSurfaceNormal ell p
      in (normal fmt \<longrightarrow> attributeVertex normalAttribute options i = Some n) \<and>
         (tangent fmt \<longrightarrow> attributeVertex tangentAttribute options i = Some (cross UNIT_Z n)) \<and>
         (binormal fmt \<longrightarrow>
            attributeVertex binormalAttribute options i = Some (cross n (cross UNIT_Z n))))"
  using attributeVertex_normal[OF assms(1) _ assms(2)]
    attributeVertex_tangent[OF assms(1) _ assms(2)]
    attributeVertex_binormal[OF assms(1) _ assms(2)]
  by (simp add: Let_def vertexTangent_def vertexBinormal_def)

theorem tangent_is_cross_product_witness:
  "attributeVertex normalAttribute
     \<lparr>ellipsoid = None, numberOfPartitions = Some 1,
      vertexFormat = Some \<lparr>position = False, normal = True, st = False, binormal = True,
                            tangent = True\<rparr>\<rparr> 6
     = Some (Cartesian3 (1 / sqrt 2) 0 (1 / sqrt 2)) \<and>
   attributeVertex tangentAttribute
     \<lparr>ellipsoid = None, numberOfPartitions = Some 1,
      vertexFormat = Some \<lparr>position = False, normal = True, st = False, binormal = True,
                            tangent = True\<rparr>\<rparr> 6
     = Some (Cartesian3 0 (1 / sqrt 2) 0) \<and>
   attributeVertex binormalAttribute
     \<lparr>ellipsoid = None, numberOfPartitions = Some 1,
      vertexFormat = Some \<lparr>position = False, normal = True, st = False, binormal = True,
                            tangent = True\<rparr>\<rparr> 6
     = Some (Cartesian3 (- (1 / 2)) 0 (1 / 2))"
proof -
  let ?o = "\<lparr>ellipsoid = None, numberOfPartitions = Some 1,
      vertexFormat = Some \<lparr>position = False, normal = True, st = False, binormal = True,
                            tangent = True\<rparr>\<rparr>"
  have h: "0 < defaultValue (numberOfPartitions ?o) 32"
    "6 < length (cubePositions (nat (defaultValue (numberOfPartitions ?o) 32)))"
    by (simp_all add: defaultValue_def length_cubePositions)
  have n: "geodeticSurfaceNormal UNIT_SPHERE (cubeCorners ! 6) = Cartesian3 (1 / sqrt 2) 0 (1 / sqrt 2)"
    by (simp add: cubeCorners_def geodeticSurfaceNormal_def UNIT_SPHERE_def
        getOneOverRadiiSquared_def multiplyComponents_def normalize3_def magnitude_def Let_def)
  have m: "1 / sqrt 2 * (1 / sqrt 2) = 1 / 2"
    using real_sqrt_mult_self[of 2] by (simp add: field_simps)
  show ?thesis
    using tangent_is_cross_product[OF h] m
    by (simp add: Let_def defaultValue_def passPositions_def cubePositions_1[unfolded One_nat_def] n
        cross_def UNIT_Z_def)
qed

text \<open>On the unit sphere with one partition the tangent emitted for vertex 0 is
  \<open>(0, -1/\<surd>2, 0)\<close>: it is not the normalised cross product and its length is not 1.\<close>

theorem tangent_not_normalized:
  "attributeVertex normalAttribute
     \<lparr>ellipsoid = None, numberOfPartitions = Some 1,
      vertexFormat = Some \<lparr>position = False, normal = True, st = False, binormal = True,
                            tangent = True\<rparr>\<rparr> 0
     = Some (Cartesian3 (- (1 / sqrt 2)) 0 (- (1 / sqrt 2))) \<and>
   attributeVertex tangentAttribute
     \<lparr>ellipsoid = None, numberOfPartitions = Some 1,
      vertexFormat = Some \<lparr>position = False, normal = True, st = False, binormal = True,
                            tangent = True\<rparr>\<rparr> 0
     = Some (Cartesian3 0 (- (1 / sqrt 2)) 0) \<and>
   attributeVertex tangentAttribute
     \<lparr>ellipsoid = None, numberOfPartitions = Some 1,
      vertexFormat = Some \<lparr>position = False, normal = True, st = False, binormal = True,
                            tangent = True\<rparr>\<rparr> 0
     \<noteq> Some (normalize3 (cross UNIT_Z (Cartesian3 (- (1 / sqrt 2)) 0 (- (1 / sqrt 2))))) \<and>
   map_option magnitude
     (attributeVertex tangentAttribute
        \<lparr>ellipsoid = None, numberOfPartitions = Some 1,
         vertexFormat = Some \<lparr>position = False, normal = True, st = False, binormal = True,
                               tangent = True\<rparr>\<rparr> 0)
     \<noteq> Some 1"
proof -
  let ?o = "\<lparr>ellipsoid = None, numberOfPartitions = Some 1,
      vertexFormat = Some \<lparr>position = False, normal = True, st = False, binormal = True,
                            tangent = True\<rparr>\<rparr>"
  have h: "0 < defaultValue (numberOfPartitions ?o) 32"
    "0 < length (cubePositions (nat (defaultValue (numberOfPartitions ?o) 32)))"
    by (simp_all add: defaultValue_def length_cubePositions)
  have n: "geodeticSurfaceNormal UNIT_SPHERE (cubeCorners ! 0) =
      Cartesian3 (- (1 / sqrt 2)) 0 (- (1 / sqrt 2))"
    by (simp add: cubeCorners_def geodeticSurfaceNormal_def UNIT_SPHERE_def
        getOneOverRadiiSquared_def multiplyComponents_def normalize3_def magnitude_def Let_def)
  have a: "attributeVertex normalAttribute ?o 0 = Some (Cartesian3 (- (1 / sqrt 2)) 0 (- (1 / sqrt 2)))"
    using attributeVertex_normal[OF h(1) _ h(2)]
    by (simp add: defaultValue_def passPositions_def cubePositions_1[unfolded One_nat_def] n)
  have b: "attributeVertex tangentAttribute ?o 0 = Some (Cartesian3 0 (- (1 / sqrt 2)) 0)"
    using attributeVertex_tangent[OF h(1) _ h(2)]
    by (simp add: defaultValue_def passPositions_def cubePositions_1[unfolded One_nat_def] n
        vertexTangent_def cross_def UNIT_Z_def)
  have m: "magnitude (Cartesian3 0 (- (1 / sqrt 2)) 0) = 1 / sqrt 2"
    by (simp add: magnitude_def real_sqrt_divide)
  have c: "normalize3 (cross UNIT_Z (Cartesian3 (- (1 / sqrt 2)) 0 (- (1 / sqrt 2)))) =
      Cartesian3 0 (- 1) 0"
    using m by (simp add: normalize3_def cross_def UNIT_Z_def Let_def)
  have d: "1 / sqrt 2 \<noteq> (1::real)" by simp
  show ?thesis unfolding b using a c m d by simp
qed

subsection \<open>The edge interpolator appends and indexes its points\<close>

text \<open>
  C5. For a partition count \<open>P \<ge> 1\<close> and two indices that name positions,
  \<open>addEdgePositions\<close> returns an index list of length \<open>P + 1\<close> whose entry 0 is the
  origin index and whose entry \<open>P\<close> is the destination index; its entries
  \<open>1 .. P - 1\<close> are the indices of the \<open>P - 1\<close> points appended to the position list,
  in order, the \<open>i\<close>-th point being \<open>origin + (dest - origin) * (i / P)\<close>; the position
  list is otherwise unchanged.
\<close>

theorem edge_interpolation:
  assumes "1 \<le> P" "i0 < length positions" "i1 < length positions"
  shows "\<exists>indexList positions'.
     addEdgePositions i0 i1 P positions = Inr (indexList, positions') \<and>
     length indexList = P + 1 \<and>
     js_get indexList 0 = Some i0 \<and>
     js_get indexList P = Some i1 \<and>
     length positions' = length positions + (P - 1) \<and>
     take (length positions) positions' = positions \<and>
     (\<forall>i. 1 \<le> i \<and> i < P \<longrightarrow>
        js_get indexList i = Some (length positions + (i - 1)) \<and>
        positions' ! (length positions + (i - 1)) =
          add (positions ! i0)
              (multiplyByScalar (subtract (positions ! i1) (positions ! i0)) (real i / real P)))"
proof -
  let ?il = "edgeIndexList i0 i1 P (length positions)"
  let ?ps = "positions @ edgePoints (positions ! i0) (positions ! i1) P"
  have "addEdgePositions i0 i1 P positions = Inr (?il, ?ps)"
    using assms by (rule addEdgePositions_closed)
  moreover have "length ?il = P + 1"
    using assms(1) by (simp add: length_edgeIndexList)
  moreover have "js_get ?il 0 = Some i0" by (rule js_get_edge_first)
  moreover have "js_get ?il P = Some i1" using assms(1) by (rule js_get_edge_last)
  moreover have "length ?ps = length positions + (P - 1)"
    by (simp add: length_edgePoints)
  moreover have "take (length positions) ?ps = positions" by simp
  moreover have "\<forall>i. 1 \<le> i \<and> i < P \<longrightarrow>
        js_get ?il i = Some (length positions + (i - 1)) \<and>
        ?ps ! (length positions + (i - 1)) =
          add (positions ! i0)
              (multiplyByScalar (subtract (positions ! i1) (positions ! i0)) (real i / real P))"
  proof (intro allI impI, elim conjE)
    fix i :: nat
    assume i: "1 \<le> i" "i < P"
    have "?ps ! (length positions + (i - 1)) =
        edgePoints (positions ! i0) (positions ! i1) P ! (i - 1)"
      by (rule nth_append_length_plus)
    then show "js_get ?il i = Some (length positions + (i - 1)) \<and>
        ?ps ! (length positions + (i - 1)) =
          add (positions ! i0)
              (multiplyByScalar (subtract (positions ! i1) (positions ! i0)) (real i / real P))"
      using js_get_edge_inner[OF i] edgePoints_nth[OF i] by simp
  qed
  ultimately show ?thesis by blast
qed

theorem edge_interpolation_witness:
  "(1::nat) \<le> 2 \<and> 0 < length cubeCorners \<and> 1 < length cubeCorners \<and>
   (\<exists>indexList positions'.
     addEdgePositions 0 1 2 cubeCorners = Inr (indexList, positions') \<and>
     length indexList = 3 \<and>
     js_get indexList 0 = Some 0 \<and>
     js_get indexList 1 = Some 8 \<and>
     js_get indexList 2 = Some 1 \<and>
     length positions' = 9 \<and>
     take 8 positions' = cubeCorners \<and>
     positions' ! 8 = Cartesian3 (- (1 / 2)) (- (1 / 2)) (- 1))"
proof -
  have h: "(1::nat) \<le> 2" "0 < length cubeCorners" "1 < length cubeCorners"
    by (simp_all add: cubeCorners_def)
  from edge_interpolation[OF h] obtain indexList positions' where
    r: "addEdgePositions 0 1 2 cubeCorners = Inr (indexList, positions')"
      "length indexList = 2 + 1" "js_get indexList 0 = Some 0" "js_get indexList 2 = Some 1"
      "length positions' = length cubeCorners + (2 - 1)"
      "take (length cubeCorners) positions' = cubeCorners"
      "\<forall>i. 1 \<le> i \<and> i < 2 \<longrightarrow>
        js_get indexList i = Some (length cubeCorners + (i - 1)) \<and>
        positions' ! (length cubeCorners + (i - 1)) =
          add (cubeCorners ! 0)
              (multiplyByScalar (subtract (cubeCorners ! 1) (cubeCorners ! 0)) (real i / real 2))"
    by blast
  from r(7)[rule_format, of 1] have "js_get indexList 1 = Some (length cubeCorners + (1 - 1)) \<and>
        positions' ! (length cubeCorners + (1 - 1)) =
          add (cubeCorners ! 0)
              (multiplyByScalar (subtract (cubeCorners ! 1) (cubeCorners ! 0)) (real 1 / real 2))"
    by simp
  moreover have "cubeCorners ! 0 = Cartesian3 (- 1) 0 (- 1)" "cubeCorners ! 1 = Cartesian3 0 (- 1) (- 1)"
    by (simp_all add: cubeCorners_def)
  ultimately have "js_get indexList 1 = Some 8"
    "positions' ! 8 = Cartesian3 (- (1 / 2)) (- (1 / 2)) (- 1)"
    by (simp_all add: length_cubeCorners add_def multiplyByScalar_def subtract_def)
  with r show ?thesis by (simp add: length_cubeCorners)
qed

subsection \<open>The face tessellator fills a bilinear grid\<close>

text \<open>
  C6. For a face whose four edge lists have length \<open>P + 1\<close> and whose frame corners
  name positions, \<open>addFaceTriangles\<close> appends the \<open>(P - 1)\<^sup>2\<close> interior grid points
  row by row, the point of row \<open>j\<close> and column \<open>i\<close> being
  \<open>origin + x * (i / P) + y * (j / P)\<close> in the face's frame (the positions of the row's
  boundary points play no part), and for every row \<open>j = 1 .. P\<close> and every cell
  \<open>k = 0 .. P - 1\<close> it appends the six indices
  \<open>bottomRow[k], bottomRow[k+1], topRow[k+1], bottomRow[k], topRow[k+1], topRow[k]\<close>,
  where row 0 is the bottom edge, row \<open>P\<close> the top edge and row \<open>j\<close> between them runs
  from \<open>leftEdge[j]\<close> through the new points of that row to \<open>rightEdge[j]\<close>.
\<close>

theorem face_tessellation:
  assumes "1 \<le> P"
    and "length L = P + 1" "length B = P + 1" "length R = P + 1" "length T = P + 1"
    and "positionAt positions (js_get B 0) = Some origin"
    and "positionAt positions (js_get B P) = Some px"
    and "positionAt positions (js_get T 0) = Some py"
  shows "\<exists>positions' indices'.
     addFaceTriangles L B R T P positions indices = Inr (positions', indices') \<and>
     length positions' = length positions + (P - 1) * (P - 1) \<and>
     take (length positions) positions' = positions \<and>
     (\<forall>i j. 1 \<le> i \<and> i < P \<and> 1 \<le> j \<and> j < P \<longrightarrow>
        js_get (faceRow L B R T P (length positions) j) i =
          Some (length positions + (j - 1) * (P - 1) + (i - 1)) \<and>
        positions' ! (length positions + (j - 1) * (P - 1) + (i - 1)) =
          add (add origin (multiplyByScalar (subtract px origin) (real i / real P)))
              (multiplyByScalar (subtract py origin) (real j / real P))) \<and>
     length indices' = length indices + 6 * P * P \<and>
     take (length indices) indices' = indices \<and>
     (\<forall>j k. 1 \<le> j \<and> j \<le> P \<and> k < P \<longrightarrow>
        take 6 (drop (length indices + 6 * ((j - 1) * P + k)) indices') =
          (let bottomRow = faceRow L B R T P (length positions) (j - 1);
               topRow = faceRow L B R T P (length positions) j
           in [js_get bottomRow k, js_get bottomRow (k + 1), js_get topRow (k + 1),
               js_get bottomRow k, js_get topRow (k + 1), js_get topRow k]))"
proof -
  let ?x = "subtract px origin" and ?y = "subtract py origin"
  let ?ps = "positions @ faceGrid P origin ?x ?y"
  let ?is = "indices @ faceTriangles L B R T P (length positions)"
  have last: "js_last B = js_get B P"
    using assms(3) by (simp add: js_last_def)
  have "addFaceTriangles L B R T P positions indices = Inr (?ps, ?is)"
    using assms(1) assms(7)[folded last] assms(6,8) by (rule addFaceTriangles_closed)
  moreover have "length ?ps = length positions + (P - 1) * (P - 1)"
    by (simp add: length_faceGrid)
  moreover have "take (length positions) ?ps = positions" by simp
  moreover have "\<forall>i j. 1 \<le> i \<and> i < P \<and> 1 \<le> j \<and> j < P \<longrightarrow>
        js_get (faceRow L B R T P (length positions) j) i =
          Some (length positions + (j - 1) * (P - 1) + (i - 1)) \<and>
        ?ps ! (length positions + (j - 1) * (P - 1) + (i - 1)) =
          add (add origin (multiplyByScalar ?x (real i / real P)))
              (multiplyByScalar ?y (real j / real P))"
  proof (intro allI impI, elim conjE)
    fix i j :: nat
    assume ij: "1 \<le> i" "i < P" "1 \<le> j" "j < P"
    have "?ps ! (length positions + ((j - 1) * (P - 1) + (i - 1))) =
        faceGrid P origin ?x ?y ! ((j - 1) * (P - 1) + (i - 1))"
      by (rule nth_append_length_plus)
    then show "js_get (faceRow L B R T P (length positions) j) i =
          Some (length positions + (j - 1) * (P - 1) + (i - 1)) \<and>
        ?ps ! (length positions + (j - 1) * (P - 1) + (i - 1)) =
          add (add origin (multiplyByScalar ?x (real i / real P)))
              (multiplyByScalar ?y (real j / real P))"
      using faceRow_inner[OF ij] faceGrid_nth[OF ij] by (simp add: add.assoc)
  qed
  moreover have "length ?is = length indices + 6 * P * P"
    by (simp add: length_faceTriangles)
  moreover have "take (length indices) ?is = indices" by simp
  moreover have "\<forall>j k. 1 \<le> j \<and> j \<le> P \<and> k < P \<longrightarrow>
        take 6 (drop (length indices + 6 * ((j - 1) * P + k)) ?is) =
          (let bottomRow = faceRow L B R T P (length positions) (j - 1);
               topRow = faceRow L B R T P (length positions) j
           in [js_get bottomRow k, js_get bottomRow (k + 1), js_get topRow (k + 1),
               js_get bottomRow k, js_get topRow (k + 1), js_get topRow k])"
  proof (intro allI impI, elim conjE)
    fix j k :: nat
    assume jk: "1 \<le> j" "j \<le> P" "k < P"
    have "drop (length indices + 6 * ((j - 1) * P + k)) ?is =
        drop (6 * ((j - 1) * P + k)) (faceTriangles L B R T P (length positions))"
      by simp
    then show "take 6 (drop (length indices + 6 * ((j - 1) * P + k)) ?is) =
          (let bottomRow = faceRow L B R T P (length positions) (j - 1);
               topRow = faceRow L B R T P (length positions) j
           in [js_get bottomRow k, js_get bottomRow (k + 1), js_get topRow (k + 1),
               js_get bottomRow k, js_get topRow (k + 1), js_get topRow k])"
      using faceTriangles_block[OF jk] by (simp add: quad_def Let_def)
  qed
  ultimately show ?thesis by blast
qed

theorem face_tessellation_witness:
  "\<exists>positions' indices'.
     addFaceTriangles [Some 0, Some 7, Some 3] [Some 0, Some 4, Some 1]
         [Some 1, Some 5, Some 2] [Some 3, Some 6, Some 2] 2
         [Cartesian3 0 0 0, Cartesian3 2 0 0, Cartesian3 2 2 0, Cartesian3 0 2 0,
          Cartesian3 1 0 0, Cartesian3 2 1 0, Cartesian3 1 2 0, Cartesian3 0 1 0] []
       = Inr (positions', indices') \<and>
     length positions' = 9 \<and>
     positions' ! 8 = Cartesian3 1 1 0 \<and>
     length indices' = 24 \<and>
     take 6 indices' = [Some 0, Some 4, Some 8, Some 0, Some 8, Some 7] \<and>
     take 6 (drop 18 indices') = [Some 8, Some 5, Some 2, Some 8, Some 2, Some 6]"
proof -
  let ?L = "[Some 0, Some 7, Some 3]" and ?B = "[Some 0, Some 4, Some (1::nat)]"
  let ?R = "[Some 1, Some 5, Some 2]" and ?T = "[Some 3, Some 6, Some (2::nat)]"
  let ?ps = "[Cartesian3 0 0 0, Cartesian3 2 0 0, Cartesian3 2 2 0, Cartesian3 0 2 0,
          Cartesian3 1 0 0, Cartesian3 2 1 0, Cartesian3 1 2 0, Cartesian3 0 1 0]"
  have h: "(1::nat) \<le> 2" "length ?L = 2 + 1" "length ?B = 2 + 1" "length ?R = 2 + 1"
    "length ?T = 2 + 1"
    "positionAt ?ps (js_get ?B 0) = Some (Cartesian3 0 0 0)"
    "positionAt ?ps (js_get ?B 2) = Some (Cartesian3 2 0 0)"
    "positionAt ?ps (js_get ?T 0) = Some (Cartesian3 0 2 0)"
    by (simp_all add: positionAt_def js_get_def)
  have l8: "length ?ps = 8" by simp
  from face_tessellation[OF h, of "[]", unfolded l8] obtain positions' indices' where
    r: "addFaceTriangles ?L ?B ?R ?T 2 ?ps [] = Inr (positions', indices')"
      "length positions' = 8 + (2 - 1) * (2 - 1)"
      "\<forall>i j. 1 \<le> i \<and> i < 2 \<and> 1 \<le> j \<and> j < 2 \<longrightarrow>
        js_get (faceRow ?L ?B ?R ?T 2 (8) j) i =
          Some (8 + (j - 1) * (2 - 1) + (i - 1)) \<and>
        positions' ! (8 + (j - 1) * (2 - 1) + (i - 1)) =
          add (add (Cartesian3 0 0 0)
                 (multiplyByScalar (subtract (Cartesian3 2 0 0) (Cartesian3 0 0 0))
                    (real i / real 2)))
              (multiplyByScalar (subtract (Cartesian3 0 2 0) (Cartesian3 0 0 0))
                 (real j / real 2))"
      "length indices' = length ([] :: nat option list) + 6 * 2 * 2"
      "\<forall>j k. 1 \<le> j \<and> j \<le> 2 \<and> k < 2 \<longrightarrow>
        take 6 (drop (length ([] :: nat option list) + 6 * ((j - 1) * 2 + k)) indices') =
          (let bottomRow = faceRow ?L ?B ?R ?T 2 (8) (j - 1);
               topRow = faceRow ?L ?B ?R ?T 2 (8) j
           in [js_get bottomRow k, js_get bottomRow (k + 1), js_get topRow (k + 1),
               js_get bottomRow k, js_get topRow (k + 1), js_get topRow k])"
    by blast
  have p: "positions' ! 8 = Cartesian3 1 1 0"
    using r(3)[rule_format, of 1 1]
    by (simp add: add_def multiplyByScalar_def subtract_def)
  have t1: "take 6 indices' = [Some 0, Some 4, Some 8, Some 0, Some 8, Some 7]"
    using r(5)[rule_format, of 1 0]
    by (simp add: faceRow_def js_get_def Let_def)
  have t2: "take 6 (drop 18 indices') = [Some 8, Some 5, Some 2, Some 8, Some 2, Some 6]"
    using r(5)[rule_format, of 2 1]
    by (simp add: faceRow_def js_get_def Let_def)
  show ?thesis using r(1,2,4) p t1 t2 by simp
qed

subsection \<open>Edges are built once and shared by their two faces\<close>

text \<open>
  C7. For every partition count \<open>P \<ge> 1\<close>: the twelve calls of the edge interpolator are
  for twelve different cube edges, and the \<open>k\<close>-th edge list consists of its two corner
  indices around its own block of \<open>P - 1\<close> new indices, \<open>8 + k (P - 1)\<close> onwards; every
  edge list is a side, as it is or reversed, of exactly two faces; the index grid that a
  face triangulates has its four edge lists as bottom row, top row, left column and right
  column, so the triangles of the two faces along a shared edge use the same indices; and
  the positions of the final list are pairwise different points, so that no face has
  created again a point of an edge.
\<close>

theorem shared_edges:
  assumes "1 \<le> P"
  shows "\<exists>E edgePositions positions indices.
     addCubeEdges P cubeCorners = Inr (E, edgePositions) \<and>
     addFaces (cubeFaces E) P edgePositions [] = Inr (positions, indices) \<and>
     cubeMesh P = Inr (positions, indices) \<and>
     distinct (map (\<lambda>(a, b). {a, b}) cubeEdgeEnds) \<and>
     edgeLists E =
       map (\<lambda>k. edgeIndexList (fst (cubeEdgeEnds ! k)) (snd (cubeEdgeEnds ! k)) P
                  (8 + k * (P - 1))) [0..<12] \<and>
     length edgePositions = 8 + 12 * (P - 1) \<and>
     list_all (\<lambda>e. length (filter (sharesEdge e) (cubeFaces E)) = 2) (edgeLists E) \<and>
     indices = facesTriangles (cubeFaces E) P (8 + 12 * (P - 1)) \<and>
     (\<forall>k<6. case cubeFaces E ! k of
        (l, b, r, t) \<Rightarrow>
           faceRow l b r t P (8 + 12 * (P - 1) + k * ((P - 1) * (P - 1))) 0 = b \<and>
           faceRow l b r t P (8 + 12 * (P - 1) + k * ((P - 1) * (P - 1))) P = t \<and>
           map (\<lambda>m. js_get (faceRow l b r t P (8 + 12 * (P - 1) + k * ((P - 1) * (P - 1))) m) 0)
             [0..<Suc P] = l \<and>
           map (\<lambda>m. js_get (faceRow l b r t P (8 + 12 * (P - 1) + k * ((P - 1) * (P - 1))) m) P)
             [0..<Suc P] = r) \<and>
     distinct positions"
proof -
  have m: "cubeMesh P = Inr (cubePositions P, cubeIndices P)"
    using assms by (rule cubeMesh_closed)
  have e: "addCubeEdges P cubeCorners = Inr (cubeEdgeLists P, cubeEdgePositions P)"
    using assms by (rule addCubeEdges_closed)
  have f: "addFaces (cubeFaces (cubeEdgeLists P)) P (cubeEdgePositions P) [] =
      Inr (cubePositions P, cubeIndices P)"
    using m by (simp add: cubeMesh_def e andThen_Inr)
  have b: "\<forall>k<6. case cubeFaces (cubeEdgeLists P) ! k of
        (l, b, r, t) \<Rightarrow>
           faceRow l b r t P (8 + 12 * (P - 1) + k * ((P - 1) * (P - 1))) 0 = b \<and>
           faceRow l b r t P (8 + 12 * (P - 1) + k * ((P - 1) * (P - 1))) P = t \<and>
           map (\<lambda>m. js_get (faceRow l b r t P (8 + 12 * (P - 1) + k * ((P - 1) * (P - 1))) m) 0)
             [0..<Suc P] = l \<and>
           map (\<lambda>m. js_get (faceRow l b r t P (8 + 12 * (P - 1) + k * ((P - 1) * (P - 1))) m) P)
             [0..<Suc P] = r"
  proof (intro allI impI)
    fix k :: nat assume "k < 6"
    then show "case cubeFaces (cubeEdgeLists P) ! k of
        (l, b, r, t) \<Rightarrow>
           faceRow l b r t P (8 + 12 * (P - 1) + k * ((P - 1) * (P - 1))) 0 = b \<and>
           faceRow l b r t P (8 + 12 * (P - 1) + k * ((P - 1) * (P - 1))) P = t \<and>
           map (\<lambda>m. js_get (faceRow l b r t P (8 + 12 * (P - 1) + k * ((P - 1) * (P - 1))) m) 0)
             [0..<Suc P] = l \<and>
           map (\<lambda>m. js_get (faceRow l b r t P (8 + 12 * (P - 1) + k * ((P - 1) * (P - 1))) m) P)
             [0..<Suc P] = r"
      by (rule cube_face_boundaries[OF assms])
  qed
  show ?thesis
    using e f m cube_edges_once edgeLists_blocks[of P] length_cubeEdgePositions[of P]
      each_edge_bounds_two_faces[of P] cubeIndices_def[of P] b distinct_cubePositions[of P]
    by blast
qed

theorem shared_edges_witness:
  "(1::nat) \<le> 2 \<and>
   (\<exists>E edgePositions positions indices.
      addCubeEdges 2 cubeCorners = Inr (E, edgePositions) \<and>
      cubeMesh 2 = Inr (positions, indices) \<and>
      edge0to1 E = [Some 0, Some 8, Some 1] \<and>
      edge3to7 E = [Some 3, Some 19, Some 7] \<and>
      length edgePositions = 20 \<and>
      length (filter (sharesEdge (edge0to1 E)) (cubeFaces E)) = 2 \<and>
      length (filter (sharesEdge (edge3to7 E)) (cubeFaces E)) = 2 \<and>
      distinct positions)"
proof -
  have t: "[0..<12] = [0, 1, 2, 3, 4, 5, 6, 7, 8, 9, 10, 11 :: nat]" by (simp add: upt_rec)
  from shared_edges[of 2] obtain E edgePositions positions indices where
    r: "addCubeEdges 2 cubeCorners = Inr (E, edgePositions)"
      "cubeMesh 2 = Inr (positions, indices)"
      "edgeLists E =
         map (\<lambda>k. edgeIndexList (fst (cubeEdgeEnds ! k)) (snd (cubeEdgeEnds ! k)) 2
                  (8 + k * (2 - 1))) [0..<12]"
      "length edgePositions = 8 + 12 * (2 - 1)"
      "list_all (\<lambda>e. length (filter (sharesEdge e) (cubeFaces E)) = 2) (edgeLists E)"
      "distinct positions"
    by auto
  from r(3) have "edge0to1 E = [Some 0, Some 8, Some 1]" "edge3to7 E = [Some 3, Some 19, Some 7]"
    unfolding t by (simp_all add: edgeLists_def cubeEdgeEnds_def edgeIndexList_def)
  moreover from r(5) have "length (filter (sharesEdge (edge0to1 E)) (cubeFaces E)) = 2"
    "length (filter (sharesEdge (edge3to7 E)) (cubeFaces E)) = 2"
    by (simp_all add: edgeLists_def)
  ultimately show ?thesis using r(1,2,4,6) by auto
qed

subsection \<open>The unit sphere with one partition\<close>

text \<open>
  C8. For radii \<open>(1, 1, 1)\<close>, one partition and the position-only format the
  construction yields the eight cube corners, each normalised to distance 1 from the
  origin, and 36 indices: two triangles per face, built from the face's four corner
  indices.
\<close>

theorem unit_sphere_one_partition:
  "EllipsoidGeometry
     \<lparr>ellipsoid = Some \<lparr>radii = Cartesian3 1 1 1\<rparr>, numberOfPartitions = Some 1,
      vertexFormat = Some POSITION_ONLY\<rparr> =
   Inr \<lparr>attributes =
          \<lparr>positionAttribute =
             Some \<lparr>componentsPerAttribute = 3,
                   attributeValues =
                     [- (1 / sqrt 2), 0, - (1 / sqrt 2),
                      0, - (1 / sqrt 2), - (1 / sqrt 2),
                      1 / sqrt 2, 0, - (1 / sqrt 2),
                      0, 1 / sqrt 2, - (1 / sqrt 2),
                      - (1 / sqrt 2), 0, 1 / sqrt 2,
                      0, - (1 / sqrt 2), 1 / sqrt 2,
                      1 / sqrt 2, 0, 1 / sqrt 2,
                      0, 1 / sqrt 2, 1 / sqrt 2]\<rparr>,
           stAttribute = None, normalAttribute = None, tangentAttribute = None,
           binormalAttribute = None\<rparr>,
        indexLists =
          [map Some [0, 1, 5, 0, 5, 4,  1, 2, 6, 1, 6, 5,  2, 3, 7, 2, 7, 6,
                     3, 0, 4, 3, 4, 7,  4, 5, 6, 4, 6, 7,  1, 0, 3, 1, 3, 2]],
        boundingSphere = \<lparr>center = Cartesian3 0 0 0, radius = 1\<rparr>\<rparr> \<and>
   map magnitude
     [Cartesian3 (- (1 / sqrt 2)) 0 (- (1 / sqrt 2)),
      Cartesian3 0 (- (1 / sqrt 2)) (- (1 / sqrt 2)),
      Cartesian3 (1 / sqrt 2) 0 (- (1 / sqrt 2)),
      Cartesian3 0 (1 / sqrt 2) (- (1 / sqrt 2)),
      Cartesian3 (- (1 / sqrt 2)) 0 (1 / sqrt 2),
      Cartesian3 0 (- (1 / sqrt 2)) (1 / sqrt 2),
      Cartesian3 (1 / sqrt 2) 0 (1 / sqrt 2),
      Cartesian3 0 (1 / sqrt 2) (1 / sqrt 2)] = [1, 1, 1, 1, 1, 1, 1, 1]"
proof -
  have p: "(0::int) < defaultValue (numberOfPartitions
     \<lparr>ellipsoid = Some \<lparr>radii = Cartesian3 1 1 1\<rparr>, numberOfPartitions = Some 1,
      vertexFormat = Some POSITION_ONLY\<rparr>) 32"
    by (simp add: defaultValue_def)
  have v: "flatten (map (toEllipsoid (Cartesian3 1 1 1)) cubeCorners) =
      [- (1 / sqrt 2), 0, - (1 / sqrt 2),
                      0, - (1 / sqrt 2), - (1 / sqrt 2),
                      1 / sqrt 2, 0, - (1 / sqrt 2),
                      0, 1 / sqrt 2, - (1 / sqrt 2),
                      - (1 / sqrt 2), 0, 1 / sqrt 2,
                      0, - (1 / sqrt 2), 1 / sqrt 2,
                      1 / sqrt 2, 0, 1 / sqrt 2,
                      0, 1 / sqrt 2, 1 / sqrt 2]"
    by (simp add: cubeCorners_def flatten_def toEllipsoid_def normalize3_def magnitude_def
        multiplyComponents_def Let_def)
  have m: "sqrt 2 * sqrt 2 = 2" by simp
  have "1 / sqrt 2 * (1 / sqrt 2) = 1 / 2"
    using m by (simp add: field_simps)
  then have d: "map magnitude
     [Cartesian3 (- (1 / sqrt 2)) 0 (- (1 / sqrt 2)),
      Cartesian3 0 (- (1 / sqrt 2)) (- (1 / sqrt 2)),
      Cartesian3 (1 / sqrt 2) 0 (- (1 / sqrt 2)),
      Cartesian3 0 (1 / sqrt 2) (- (1 / sqrt 2)),
      Cartesian3 (- (1 / sqrt 2)) 0 (1 / sqrt 2),
      Cartesian3 0 (- (1 / sqrt 2)) (1 / sqrt 2),
      Cartesian3 (1 / sqrt 2) 0 (1 / sqrt 2),
      Cartesian3 0 (1 / sqrt 2) (1 / sqrt 2)] = [1, 1, 1, 1, 1, 1, 1, 1]"
    by (simp add: magnitude_def)
  show ?thesis
    unfolding EllipsoidGeometry_closed[OF p]
    using v d
    by (simp add: Let_def defaultValue_def POSITION_ONLY_def passPositions_def getRadii_def
        cubePositions_1[unfolded One_nat_def] cubeIndices_1[unfolded One_nat_def]
        fromEllipsoid_def)
qed

subsection \<open>Every emitted index names a position\<close>

text \<open>
  C9. For every partition count \<open>P \<ge> 1\<close>, every entry of the index buffer is a number
  (never \<open>undefined\<close>) strictly below the final length of the position list.
\<close>

theorem indices_in_range:
  assumes "1 \<le> P"
  shows "\<exists>positions indices. cubeMesh P = Inr (positions, indices) \<and>
           list_all (validIndex (length positions)) indices"
proof -
  let ?N = "length (cubePositions P)"
  have f: "list_all (validFace ?N P) (cubeFaces (cubeEdgeLists P))"
    using assms by (intro valid_cubeFaces) (simp_all add: length_cubePositions)
  have "list_all (validIndex ?N) (cubeIndices P)"
    unfolding cubeIndices_def
    using assms f by (intro valid_facesTriangles) (simp_all add: length_cubePositions cubeFaces_def)
  then show ?thesis using cubeMesh_closed[OF assms] by simp
qed

theorem indices_in_range_witness:
  "(1::nat) \<le> 2 \<and>
   (\<exists>positions indices. cubeMesh 2 = Inr (positions, indices) \<and> length positions = 26 \<and>
      list_all (validIndex 26) indices)"
proof -
  from indices_in_range[of 2] obtain positions indices where
    r: "cubeMesh 2 = Inr (positions, indices)" "list_all (validIndex (length positions)) indices"
    by auto
  from cubeMesh_closed[of 2] r(1) have "length positions = 26"
    by (simp add: length_cubePositions)
  with r show ?thesis by auto
qed

subsection \<open>The centres of the two caps\<close>

text \<open>
  C10. For every even partition count \<open>P \<ge> 2\<close> (and an ellipsoid with positive radii)
  the top cap, the fifth face, has the interior vertex \<open>(0, 0, 1)\<close> at its grid cell
  \<open>i = j = P / 2\<close> and the bottom cap, the sixth face, has \<open>(0, 0, -1)\<close> there; the
  tangent and the binormal emitted for these two vertices, when requested, are the zero
  vector, whether or not the position attribute is requested: the geodetic normal there
  has no x or y component, so its cross product with the up axis vanishes.
\<close>

theorem cap_centres_have_zero_tangent:
  assumes "even P" "2 \<le> P"
    and "0 < x3 (radii ell)" "0 < y3 (radii ell)" "0 < z3 (radii ell)"
  shows "(\<exists>positions indices. cubeMesh P = Inr (positions, indices) \<and>
            faceVertexIndex P 4 (P div 2) (P div 2) < length positions \<and>
            faceVertexIndex P 5 (P div 2) (P div 2) < length positions \<and>
            positions ! faceVertexIndex P 4 (P div 2) (P div 2) = Cartesian3 0 0 1 \<and>
            positions ! faceVertexIndex P 5 (P div 2) (P div 2) = Cartesian3 0 0 (- 1)) \<and>
         (tangent fmt \<longrightarrow>
            attributeVertex tangentAttribute
              \<lparr>ellipsoid = Some ell, numberOfPartitions = Some (int P), vertexFormat = Some fmt\<rparr>
              (faceVertexIndex P 4 (P div 2) (P div 2)) = Some (Cartesian3 0 0 0) \<and>
            attributeVertex tangentAttribute
              \<lparr>ellipsoid = Some ell, numberOfPartitions = Some (int P), vertexFormat = Some fmt\<rparr>
              (faceVertexIndex P 5 (P div 2) (P div 2)) = Some (Cartesian3 0 0 0)) \<and>
         (binormal fmt \<longrightarrow>
            attributeVertex binormalAttribute
              \<lparr>ellipsoid = Some ell, numberOfPartitions = Some (int P), vertexFormat = Some fmt\<rparr>
              (faceVertexIndex P 4 (P div 2) (P div 2)) = Some (Cartesian3 0 0 0) \<and>
            attributeVertex binormalAttribute
              \<lparr>ellipsoid = Some ell, numberOfPartitions = Some (int P), vertexFormat = Some fmt\<rparr>
              (faceVertexIndex P 5 (P div 2) (P div 2)) = Some (Cartesian3 0 0 0))"
proof -
  have P1: "1 \<le> P" using assms(2) by simp
  have h: "1 \<le> P div 2" "P div 2 < P" using assms(1,2) by auto
  let ?t = "faceVertexIndex P 4 (P div 2) (P div 2)"
  let ?b = "faceVertexIndex P 5 (P div 2) (P div 2)"
  have lt: "?t < length (cubePositions P)" by (intro faceVertexIndex_less h) simp
  have lb: "?b < length (cubePositions P)" by (intro faceVertexIndex_less h) simp
  have t: "cubePositions P ! ?t = Cartesian3 0 0 1"
    unfolding faceVertexIndex_def
    using cubePositions_face_nth[of 4 "P div 2" P "P div 2", OF _ h h] top_pole[OF assms(1,2)]
    by simp
  have b: "cubePositions P ! ?b = Cartesian3 0 0 (- 1)"
    unfolding faceVertexIndex_def
    using cubePositions_face_nth[of 5 "P div 2" P "P div 2", OF _ h h] bottom_pole[OF assms(1,2)]
    by simp
  show ?thesis
    using cubeMesh_closed[OF P1] lt lb t b
      axis_vertex_attributes[OF P1 lt t, of fmt ell] axis_vertex_attributes[OF P1 lb b, of fmt ell]
    by simp
qed

theorem cap_centres_have_zero_tangent_witness:
  "(\<exists>positions indices. cubeMesh 2 = Inr (positions, indices) \<and>
      positions ! 24 = Cartesian3 0 0 1 \<and> positions ! 25 = Cartesian3 0 0 (- 1)) \<and>
   attributeVertex tangentAttribute
     \<lparr>ellipsoid = Some \<lparr>radii = Cartesian3 2 1 1\<rparr>, numberOfPartitions = Some 2,
      vertexFormat = Some \<lparr>position = True, normal = True, st = False, binormal = True,
                            tangent = True\<rparr>\<rparr> 24 = Some (Cartesian3 0 0 0) \<and>
   attributeVertex tangentAttribute
     \<lparr>ellipsoid = Some \<lparr>radii = Cartesian3 2 1 1\<rparr>, numberOfPartitions = Some 2,
      vertexFormat = Some \<lparr>position = True, normal = True, st = False, binormal = True,
                            tangent = True\<rparr>\<rparr> 25 = Some (Cartesian3 0 0 0) \<and>
   attributeVertex binormalAttribute
     \<lparr>ellipsoid = Some \<lparr>radii = Cartesian3 2 1 1\<rparr>, numberOfPartitions = Some 2,
      vertexFormat = Some \<lparr>position = True, normal = True, st = False, binormal = True,
                            tangent = True\<rparr>\<rparr> 24 = Some (Cartesian3 0 0 0) \<and>
   attributeVertex binormalAttribute
     \<lparr>ellipsoid = Some \<lparr>radii = Cartesian3 2 1 1\<rparr>, numberOfPartitions = Some 2,
      vertexFormat = Some \<lparr>position = True, normal = True, st = False, binormal = True,
                            tangent = True\<rparr>\<rparr> 25 = Some (Cartesian3 0 0 0)"
proof -
  have h: "even (2::nat)" "(2::nat) \<le> 2"
    "0 < x3 (radii \<lparr>radii = Cartesian3 2 1 1\<rparr>)"
    "0 < y3 (radii \<lparr>radii = Cartesian3 2 1 1\<rparr>)"
    "0 < z3 (radii \<lparr>radii = Cartesian3 2 1 1\<rparr>)"
    by simp_all
  have i: "faceVertexIndex 2 4 (2 div 2) (2 div 2) = 24" "faceVertexIndex 2 5 (2 div 2) (2 div 2) = 25"
    by (simp_all add: faceVertexIndex_def)
  show ?thesis
    using cap_centres_have_zero_tangent[OF h,
        of "\<lparr>position = True, normal = True, st = False, binormal = True, tangent = True\<rparr>"]
    unfolding i by auto
qed

end
